theory Spec2Isabelle
  imports Complex_Main "HOL-Library.Word"
begin

section \<open>Golf skins analysis (src/skins.js)\<close>

text \<open>
  A shallow embedding of the scoring code of the React component \<open>GolfSkinsAnalyzer\<close>:
  \<open>calculateStrokesReceived\<close>, \<open>analyzeSkins\<close> and the "Total Skins by Player" block of
  the render function. The component's \<open>useState\<close> cells are a record that
  \<open>analyzeSkins\<close> takes and returns; a thrown exception is the left injection of a sum.
\<close>

subsection \<open>JavaScript numbers\<close>

text \<open>
  A JavaScript Number is \<open>NaN\<close>, an infinity or a finite binary64 value, kept as the real
  number it stands for; every operation that can round does so through \<open>toBinary64\<close>.
  The type has more reals than binary64 has values: what is proved for all of them holds
  for the Numbers among them. The two zeros are one value \<open>Fin 0\<close>: the code never
  tells them apart (\<open>===\<close> and \<open><=\<close> equate them, both are falsy, and \<open>Math.min\<close> of
  the two is \<open>===\<close> to either).
\<close>

datatype jsnum = NaN | NegInf | Fin real | PosInf

text \<open>
  The Number value of a real: round to the nearest binary64 value, ties to the even
  significand, beyond the largest finite value to an infinity. \<open>ilog2 a\<close> is the exponent
  \<open>e\<close> with \<open>2^e \<le> a < 2^(e+1)\<close>; the significand has 53 bits down to the exponent
  \<open>-1074\<close> of the subnormal values.
\<close>

function bitLength :: "int \<Rightarrow> nat" where
  "bitLength n = (if n \<le> 0 then 0 else Suc (bitLength (n div 2)))"
  by pat_completeness auto
termination
  by (relation "measure nat") auto

definition pow2 :: "int \<Rightarrow> real" where
  "pow2 e = (if 0 \<le> e then 2 ^ nat e else 1 / 2 ^ nat (- e))"

definition ilog2 :: "real \<Rightarrow> int" where
  "ilog2 a =
     (if 1 \<le> a then int (bitLength \<lfloor>a\<rfloor>) - 1
      else (let k = int (bitLength \<lfloor>1 / a\<rfloor>) - 1 in if a * pow2 k = 1 then - k else - k - 1))"

definition roundHalfEven :: "real \<Rightarrow> int" where
  "roundHalfEven y =
     (let f = \<lfloor>y\<rfloor>; d = y - of_int f
      in if d < 1 / 2 then f else if 1 / 2 < d then f + 1 else if even f then f else f + 1)"

definition toBinary64 :: "real \<Rightarrow> jsnum" where
  "toBinary64 x =
     (if x = 0 then Fin 0
      else
        (let a = \<bar>x\<bar>;
             q = max (ilog2 a - 52) (- 1074);
             v = of_int (roundHalfEven (a / pow2 q)) * pow2 q
         in if 2 ^ 1024 \<le> v then (if x < 0 then NegInf else PosInf)
            else Fin (if x < 0 then - v else v)))"

text \<open>\<open>===\<close> on Numbers: \<open>NaN\<close> equals nothing, itself included.\<close>

definition num_strict_eq :: "jsnum \<Rightarrow> jsnum \<Rightarrow> bool" where
  "num_strict_eq a b = (a \<noteq> NaN \<and> a = b)"

text \<open>\<open><=\<close> on Numbers: false as soon as one side is \<open>NaN\<close>.\<close>

fun js_le :: "jsnum \<Rightarrow> jsnum \<Rightarrow> bool" where
  "js_le NaN _ = False"
| "js_le _ NaN = False"
| "js_le NegInf _ = True"
| "js_le _ PosInf = True"
| "js_le (Fin a) (Fin b) = (a \<le> b)"
| "js_le _ _ = False"

text \<open>Binary \<open>-\<close> and \<open>/\<close> on Numbers: IEEE 754 special cases, finite results rounded.\<close>

fun js_neg :: "jsnum \<Rightarrow> jsnum" where
  "js_neg NaN = NaN"
| "js_neg NegInf = PosInf"
| "js_neg PosInf = NegInf"
| "js_neg (Fin a) = Fin (- a)"

fun js_sub :: "jsnum \<Rightarrow> jsnum \<Rightarrow> jsnum" where
  "js_sub NaN _ = NaN"
| "js_sub _ NaN = NaN"
| "js_sub (Fin a) (Fin b) = toBinary64 (a - b)"
| "js_sub PosInf PosInf = NaN"
| "js_sub NegInf NegInf = NaN"
| "js_sub PosInf _ = PosInf"
| "js_sub NegInf _ = NegInf"
| "js_sub (Fin a) b = js_neg b"

fun js_div :: "jsnum \<Rightarrow> jsnum \<Rightarrow> jsnum" where
  "js_div NaN _ = NaN"
| "js_div _ NaN = NaN"
| "js_div (Fin a) (Fin b) =
     (if b = 0 then (if a = 0 then NaN else if 0 < a then PosInf else NegInf)
      else toBinary64 (a / b))"
| "js_div (Fin a) _ = Fin 0"
| "js_div a (Fin b) = (if 0 \<le> b then a else js_neg a)"
| "js_div _ _ = NaN"

text \<open>
  Rounding toward zero, and \<open>%\<close>: the remainder takes the sign of the dividend and is
  exact in binary64.
\<close>

definition trunc :: "real \<Rightarrow> int" where
  "trunc r = (if 0 \<le> r then \<lfloor>r\<rfloor> else \<lceil>r\<rceil>)"

fun js_rem :: "jsnum \<Rightarrow> jsnum \<Rightarrow> jsnum" where
  "js_rem NaN _ = NaN"
| "js_rem _ NaN = NaN"
| "js_rem PosInf _ = NaN"
| "js_rem NegInf _ = NaN"
| "js_rem (Fin a) (Fin b) = (if b = 0 then NaN else Fin (a - b * of_int (trunc (a / b))))"
| "js_rem (Fin a) _ = Fin a"

fun Math_ceil :: "jsnum \<Rightarrow> jsnum" where
  "Math_ceil (Fin r) = Fin (of_int \<lceil>r\<rceil>)"
| "Math_ceil x = x"

text \<open>
  \<open>Math.min(...xs)\<close>: \<open>NaN\<close> if any argument is \<open>NaN\<close>, \<open>+Infinity\<close> with no
  argument, the least argument otherwise.
\<close>

definition js_min2 :: "jsnum \<Rightarrow> jsnum \<Rightarrow> jsnum" where
  "js_min2 a b = (if a = NaN \<or> b = NaN then NaN else if js_le a b then a else b)"

fun Math_min :: "jsnum list \<Rightarrow> jsnum" where
  "Math_min [] = PosInf"
| "Math_min (x # xs) = js_min2 x (Math_min xs)"

subsection \<open>JavaScript values\<close>

text \<open>
  A string is its sequence of UTF-16 code units; \<open>str\<close> gives the code units of a
  literal written in ASCII. PapaParse yields strings only when called without options (the
  upload path); under \<open>dynamicTyping: true\<close> (the default-file path) it yields numbers,
  booleans and null as well, and a \<open>Date\<close> object for a cell in ISO date format, here
  \<open>JDate\<close> with a number that tells the objects apart. A read past the end of a row is
  \<open>undefined\<close>.
\<close>

type_synonym jsstring = "16 word list"

definition str :: "string \<Rightarrow> jsstring" where
  "str s = map of_char s"

datatype jsval = JUndefined | JNull | JBool bool | JNum jsnum | JStr jsstring | JDate nat

datatype jserror = TypeError

type_synonym row = "jsval list"

text \<open>\<open>row[i]\<close>: an index past the end reads \<open>undefined\<close>.\<close>

definition idx :: "jsval list \<Rightarrow> nat \<Rightarrow> jsval" where
  "idx xs i = (if i < length xs then xs ! i else JUndefined)"

text \<open>\<open>xs.slice(a, b)\<close> for non-negative \<open>a \<le> b\<close>.\<close>

definition slice :: "nat \<Rightarrow> nat \<Rightarrow> 'a list \<Rightarrow> 'a list" where
  "slice a b xs = take (b - a) (drop a xs)"

text \<open>ToBoolean.\<close>

fun truthy :: "jsval \<Rightarrow> bool" where
  "truthy JUndefined = False"
| "truthy JNull = False"
| "truthy (JBool b) = b"
| "truthy (JNum NaN) = False"
| "truthy (JNum (Fin r)) = (r \<noteq> 0)"
| "truthy (JNum _) = True"
| "truthy (JStr s) = (s \<noteq> [])"
| "truthy (JDate d) = True"

text \<open>\<open>===\<close>: on primitives by value, on objects by identity.\<close>

fun strict_eq :: "jsval \<Rightarrow> jsval \<Rightarrow> bool" where
  "strict_eq (JNum a) (JNum b) = num_strict_eq a b"
| "strict_eq a b = (a = b)"

text \<open>\<open>x || 0\<close> on a Number.\<close>

definition or_zero :: "jsnum \<Rightarrow> jsnum" where
  "or_zero x = (if truthy (JNum x) then x else Fin 0)"

subsection \<open>Strings: \<open>includes\<close>, \<open>parseInt\<close>, \<open>parseFloat\<close>\<close>

text \<open>\<open>s.includes(p)\<close>: \<open>p\<close> occurs in \<open>s\<close> as a contiguous block.\<close>

fun str_includes :: "jsstring \<Rightarrow> jsstring \<Rightarrow> bool" where
  "str_includes [] p = (p = [])"
| "str_includes (c # cs) p = (take (length p) (c # cs) = p \<or> str_includes cs p)"

text \<open>
  The code units that \<open>parseInt\<close> and \<open>parseFloat\<close> strip from the start (ECMA-262,
  TrimString): WhiteSpace (tab, vertical tab, form feed, the byte order mark U+FEFF and
  the space separators U+0020, U+00A0, U+1680, U+2000 to U+200A, U+202F, U+205F, U+3000)
  and LineTerminator (line feed, carriage return, U+2028, U+2029).
\<close>

definition isWhiteSpace :: "16 word \<Rightarrow> bool" where
  "isWhiteSpace c =
     (c \<in> {0x0009, 0x000A, 0x000B, 0x000C, 0x000D, 0x0020, 0x00A0, 0x1680,
            0x2028, 0x2029, 0x202F, 0x205F, 0x3000, 0xFEFF}
      \<or> (0x2000 \<le> c \<and> c \<le> 0x200A))"

definition trimStart :: "jsstring \<Rightarrow> jsstring" where
  "trimStart s = dropWhile isWhiteSpace s"

definition isDigit :: "16 word \<Rightarrow> bool" where
  "isDigit c = (0x30 \<le> c \<and> c \<le> 0x39)"

text \<open>The value of a digit in radix 10 or 16; \<open>None\<close> when the code unit is no digit.\<close>

definition digitValue :: "nat \<Rightarrow> 16 word \<Rightarrow> nat option" where
  "digitValue R c =
     (if 0x30 \<le> c \<and> c \<le> 0x39 then Some (unat c - 48)
      else if R = 16 \<and> 0x61 \<le> c \<and> c \<le> 0x66 then Some (unat c - 87)
      else if R = 16 \<and> 0x41 \<le> c \<and> c \<le> 0x46 then Some (unat c - 55)
      else None)"

definition isRadixDigit :: "nat \<Rightarrow> 16 word \<Rightarrow> bool" where
  "isRadixDigit R c = (digitValue R c \<noteq> None)"

definition radixValue :: "nat \<Rightarrow> jsstring \<Rightarrow> int" where
  "radixValue R ds =
     foldl (\<lambda>acc c. acc * int R + (case digitValue R c of Some d \<Rightarrow> int d | None \<Rightarrow> 0)) 0 ds"

definition isSign :: "16 word \<Rightarrow> bool" where
  "isSign c = (c = 0x2B \<or> c = 0x2D)"

text \<open>
  \<open>parseInt(s)\<close> on a string, without a radix argument (ECMA-262, 19.2.5): strip leading
  white space, take a sign, take a \<open>0x\<close>/\<open>0X\<close> prefix as radix 16, read the longest run
  of digits; \<open>NaN\<close> if that run is empty, the Number value of the signed integer
  otherwise (every digit counts, as in V8).
\<close>

definition parseInt_string :: "jsstring \<Rightarrow> jsnum" where
  "parseInt_string s =
     (let S = trimStart s;
          sign = (if S \<noteq> [] \<and> hd S = 0x2D then - 1 else (1::int));
          S1 = (if S \<noteq> [] \<and> isSign (hd S) then tl S else S);
          hex = (take 2 S1 = str ''0x'' \<or> take 2 S1 = str ''0X'');
          R = (if hex then 16 else 10);
          S2 = (if hex then drop 2 S1 else S1);
          Z = takeWhile (isRadixDigit R) S2
      in if Z = [] then NaN else toBinary64 (of_int (sign * radixValue R Z)))"

text \<open>
  \<open>parseFloat(s)\<close> on a string (ECMA-262, 19.2.4): strip leading white space and read the
  longest prefix that is a \<open>StrDecimalLiteral\<close>: a sign, then \<open>Infinity\<close> or digits with
  an optional fraction and an optional exponent; \<open>NaN\<close> if there is none, the Number
  value of the decimal otherwise.
\<close>

definition pow10 :: "int \<Rightarrow> real" where
  "pow10 e = (if 0 \<le> e then 10 ^ nat e else 1 / 10 ^ nat (- e))"

definition exponentPart :: "jsstring \<Rightarrow> int" where
  "exponentPart rest =
     (case rest of
        [] \<Rightarrow> 0
      | c # cs \<Rightarrow>
          if c = 0x65 \<or> c = 0x45 then
            (let neg = (cs \<noteq> [] \<and> hd cs = 0x2D);
                 ds = (if cs \<noteq> [] \<and> isSign (hd cs) then tl cs else cs);
                 Z = takeWhile isDigit ds
             in if Z = [] then 0 else if neg then - radixValue 10 Z else radixValue 10 Z)
          else 0)"

definition parseFloat_string :: "jsstring \<Rightarrow> jsnum" where
  "parseFloat_string s =
     (let S = trimStart s;
          neg = (S \<noteq> [] \<and> hd S = 0x2D);
          S1 = (if S \<noteq> [] \<and> isSign (hd S) then tl S else S)
      in if take 8 S1 = str ''Infinity'' then (if neg then NegInf else PosInf)
         else
           (let ip = takeWhile isDigit S1;
                r1 = dropWhile isDigit S1;
                dot = (r1 \<noteq> [] \<and> hd r1 = 0x2E);
                fp = (if dot then takeWhile isDigit (tl r1) else []);
                r2 = (if dot then dropWhile isDigit (tl r1) else r1)
            in if ip = [] \<and> fp = [] then NaN
               else
                 (let m = of_int (radixValue 10 ip) + of_int (radixValue 10 fp) / 10 ^ length fp;
                      v = m * pow10 (exponentPart r2)
                  in toBinary64 (if neg then - v else v))))"

text \<open>
  \<open>parseInt\<close> and \<open>parseFloat\<close> on a cell go through ToString. \<open>undefined\<close>, \<open>null\<close>,
  \<open>true\<close>, \<open>false\<close>, \<open>NaN\<close> print as words without a digit, and a \<open>Date\<close> prints
  with the name of a weekday (or as \<open>Invalid Date\<close>) first; \<open>Infinity\<close> is a word that
  \<open>parseFloat\<close> reads and \<open>parseInt\<close> does not. A finite Number \<open>x\<close> prints the digits of
  Number::toString (ECMA-262, 6.1.6.1.20): integers \<open>n\<close>, \<open>k\<close>, \<open>s\<close> with \<open>k\<close> digits in
  \<open>s\<close>, the Number value of \<open>s * 10^(n-k)\<close> equal to \<open>x\<close>, \<open>k\<close> as small as possible and
  among those \<open>s\<close> the one nearest to \<open>x\<close> (17 digits always suffice). For
  \<open>-6 < n \<le> 21\<close> the digits are printed in decimal notation and \<open>parseInt\<close> reads the
  integer part; otherwise in exponent notation and \<open>parseInt\<close> reads the first digit
  alone. \<open>parseFloat\<close> reads the printed Number back whole.
\<close>

function numDigits :: "int \<Rightarrow> nat" where
  "numDigits n = (if n < 10 then 1 else Suc (numDigits (n div 10)))"
  by pat_completeness auto
termination
  by (relation "measure nat") auto

definition ilog10 :: "real \<Rightarrow> int" where
  "ilog10 a =
     (if 1 \<le> a then int (numDigits \<lfloor>a\<rfloor>) - 1
      else (let k = int (numDigits \<lfloor>1 / a\<rfloor>) - 1 in if a * pow10 k = 1 then - k else - k - 1))"

text \<open>
  The \<open>k\<close>-digit decimals next to \<open>x\<close> below and above, at the exponent \<open>n\<close> of \<open>x\<close>:
  the nearer one whose Number value is \<open>x\<close>, the even one on a tie.
\<close>

definition shortestAt :: "real \<Rightarrow> int \<Rightarrow> nat \<Rightarrow> int option" where
  "shortestAt x n k =
     (let u = pow10 (n - int k);
          lo = \<lfloor>x / u\<rfloor>;
          hi = lo + 1;
          okLo = (toBinary64 (of_int lo * u) = Fin x);
          okHi = (toBinary64 (of_int hi * u) = Fin x);
          dLo = x - of_int lo * u;
          dHi = of_int hi * u - x
      in if okLo \<and> okHi then
           Some (if dLo < dHi then lo else if dHi < dLo then hi else if even lo then lo else hi)
         else if okLo then Some lo
         else if okHi then Some hi
         else None)"

fun firstShortest :: "real \<Rightarrow> int \<Rightarrow> nat list \<Rightarrow> (nat \<times> int) option" where
  "firstShortest x n [] = None"
| "firstShortest x n (k # ks) =
     (case shortestAt x n k of Some s \<Rightarrow> Some (k, s) | None \<Rightarrow> firstShortest x n ks)"

text \<open>\<open>(n, k, s)\<close> for a positive \<open>x\<close>; digits rounded up to \<open>10^k\<close> move to the next \<open>n\<close>.\<close>

definition decimalDigits :: "real \<Rightarrow> int \<times> nat \<times> int" where
  "decimalDigits x =
     (let n = ilog10 x + 1;
          (k, s) = (case firstShortest x n [1..<17] of
                      Some ks \<Rightarrow> ks
                    | None \<Rightarrow> (17, roundHalfEven (x / pow10 (n - 17))))
      in if s = 10 ^ k then (n + 1, k, 10 ^ (k - 1)) else (n, k, s))"

fun parseInt_number :: "jsnum \<Rightarrow> jsnum" where
  "parseInt_number (Fin r) =
     (if r = 0 then Fin 0
      else
        (let (n, k, s) = decimalDigits \<bar>r\<bar>;
             z = (if n \<le> - 6 \<or> 21 < n then s div 10 ^ (k - 1)
                  else if n \<le> 0 then 0
                  else if int k \<le> n then s * 10 ^ nat (n - int k)
                  else s div 10 ^ nat (int k - n))
         in toBinary64 (of_int (if r < 0 then - z else z))))"
| "parseInt_number _ = NaN"

fun parseInt :: "jsval \<Rightarrow> jsnum" where
  "parseInt (JStr s) = parseInt_string s"
| "parseInt (JNum x) = parseInt_number x"
| "parseInt _ = NaN"

fun parseFloat :: "jsval \<Rightarrow> jsnum" where
  "parseFloat (JStr s) = parseFloat_string s"
| "parseFloat (JNum x) = x"
| "parseFloat _ = NaN"

subsection \<open>The stroke rule\<close>

text \<open>
  \<^verbatim>\<open>calculateStrokesReceived = (halfHandicap, holeHandicap) => { ... }\<close>: with a half
  handicap that is no whole number the hole handicap is compared with its ceiling, with a
  whole one with the half handicap itself. The result is the literal 1 or 0.
\<close>

definition calculateStrokesReceived :: "jsnum \<Rightarrow> jsnum \<Rightarrow> int" where
  "calculateStrokesReceived halfHandicap holeHandicap =
     (if \<not> num_strict_eq (js_rem halfHandicap (Fin 1)) (Fin 0) then
        (if js_le holeHandicap (Math_ceil halfHandicap) then 1 else 0)
      else (if js_le holeHandicap halfHandicap then 1 else 0))"

subsection \<open>Records of the analysis\<close>

text \<open>
  The object literals of \<open>analyzeSkins\<close>. The source calls the fields of a net score
  \<open>name, gross, net, strokes\<close> and those of a hole's result \<open>winner, value, scores\<close>;
  \<open>playerName\<close>, \<open>skinValue\<close> and \<open>holeScores\<close> stand for the names taken already.
  \<open>gross\<close> is \<open>None\<close> where \<open>player.scores[holeIndex]\<close> reads \<open>undefined\<close>. The
  literals 0 and 1 of \<open>value\<close> and \<open>strokes\<close> are integers.
\<close>

record player =
  name :: jsval
  fullHandicap :: jsnum
  halfHandicap :: jsnum
  scores :: "jsnum list"

record netScore =
  playerName :: jsval
  gross :: "jsnum option"
  net :: jsnum
  strokes :: int

record holeResult =
  winner :: jsval
  skinValue :: int
  holeScores :: "netScore list"

text \<open>
  The four \<open>useState\<close> cells of the component. \<open>skinsResults\<close> is the object keyed by
  hole number, kept as an association list in the order of its keys.
\<close>

record state =
  players :: "player list"
  skinsResults :: "(nat \<times> holeResult) list"
  error :: "jsstring option"
  holeHandicaps :: "jsnum list"

definition initialState :: state where
  "initialState = \<lparr>players = [], skinsResults = [], error = None, holeHandicaps = []\<rparr>"

subsection \<open>Row extraction\<close>

text \<open>
  The callback of \<open>data.filter\<close>. \<open>&&\<close> stops at the first falsy operand, so the third
  cell is looked at only for a row whose first cell passed. \<open>row[2]?.includes("Pars")\<close>
  is \<open>undefined\<close> for a third cell that is \<open>undefined\<close> or \<open>null\<close>; a string has the
  method; a number, a boolean or a \<open>Date\<close> has no \<open>includes\<close> property, and calling it
  throws a TypeError.
\<close>

definition isPlayerRow :: "row \<Rightarrow> jserror + bool" where
  "isPlayerRow row =
     (if \<not> truthy (idx row 0) then Inr False
      else if strict_eq (idx row 0) (JStr (str ''Player'')) then Inr False
      else if strict_eq (idx row 0) (JStr (str ''HDCP'')) then Inr False
      else if strict_eq (idx row 0) (JStr (str ''PAR'')) then Inr False
      else if strict_eq (idx row 0) (JStr []) then Inr False
      else (case idx row 2 of
              JUndefined \<Rightarrow> Inr True
            | JNull \<Rightarrow> Inr True
            | JStr s \<Rightarrow> Inr (\<not> str_includes s (str ''Pars''))
            | _ \<Rightarrow> Inl TypeError))"

text \<open>\<open>data.filter(...)\<close>, front to back; an exception in the callback ends it.\<close>

fun filterRows :: "row list \<Rightarrow> jserror + row list" where
  "filterRows [] = Inr []"
| "filterRows (row # rest) =
     (case isPlayerRow row of
        Inl e \<Rightarrow> Inl e
      | Inr keep \<Rightarrow>
          (case filterRows rest of
             Inl e \<Rightarrow> Inl e
           | Inr kept \<Rightarrow> Inr (if keep then row # kept else kept)))"

text \<open>The callback of \<open>playerRows.map\<close>.\<close>

definition toPlayer :: "row \<Rightarrow> player" where
  "toPlayer row =
     \<lparr>name = idx row 0,
      fullHandicap = or_zero (parseFloat (idx row 13)),
      halfHandicap = js_div (or_zero (parseFloat (idx row 13))) (Fin 2),
      scores = map parseInt (slice 3 12 row)\<rparr>"

subsection \<open>Net scores and the winner of a hole\<close>

definition actualHoleHandicaps :: "jsnum list" where
  "actualHoleHandicaps = [Fin 4, Fin 14, Fin 16, Fin 2, Fin 18, Fin 8, Fin 6, Fin 12, Fin 10]"

text \<open>The callback of \<open>playerData.map\<close> in the loop; \<open>undefined - n\<close> is \<open>NaN\<close>.\<close>

definition netScoreOf :: "jsnum \<Rightarrow> nat \<Rightarrow> player \<Rightarrow> netScore" where
  "netScoreOf holeHandicap holeIndex p =
     (let strokesReceived = calculateStrokesReceived (halfHandicap p) holeHandicap;
          grossScore = (if holeIndex < length (scores p) then Some (scores p ! holeIndex) else None)
      in \<lparr>playerName = name p,
          gross = grossScore,
          net = (case grossScore of
                   None \<Rightarrow> NaN
                 | Some g \<Rightarrow> js_sub g (Fin (of_int strokesReceived))),
          strokes = strokesReceived\<rparr>)"

text \<open>The body of the loop for one \<open>holeIndex\<close> below 9: the value stored in \<open>results\<close>.\<close>

definition holeResultOf :: "player list \<Rightarrow> nat \<Rightarrow> holeResult" where
  "holeResultOf playerData holeIndex =
     (let holeHandicap = actualHoleHandicaps ! holeIndex;
          netScores = map (netScoreOf holeHandicap holeIndex) playerData;
          lowestNet = Math_min (map net netScores);
          winners = filter (\<lambda>s. num_strict_eq (net s) lowestNet) netScores
      in if length winners = 1
         then \<lparr>winner = playerName (hd winners), skinValue = 1, holeScores = netScores\<rparr>
         else \<lparr>winner = JStr (str ''No Winner''), skinValue = 0, holeScores = netScores\<rparr>)"

text \<open>\<open>results[k] = v\<close>: replaces the value of a key that is there, adds the key otherwise.\<close>

fun setProperty :: "nat \<Rightarrow> 'v \<Rightarrow> (nat \<times> 'v) list \<Rightarrow> (nat \<times> 'v) list" where
  "setProperty k v [] = [(k, v)]"
| "setProperty k v (p # ps) = (if fst p = k then (k, v) # ps else p # setProperty k v ps)"

text \<open>\<^verbatim>\<open>for (let holeIndex = 0; holeIndex < 9; holeIndex++)\<close>, from any \<open>holeIndex\<close>.\<close>

function holeLoop ::
  "player list \<Rightarrow> nat \<Rightarrow> (nat \<times> holeResult) list \<Rightarrow> (nat \<times> holeResult) list" where
  "holeLoop playerData holeIndex results =
     (if holeIndex < 9 then
        (let holeNumber = holeIndex + 1
         in holeLoop playerData (holeIndex + 1)
              (setProperty holeNumber (holeResultOf playerData holeIndex) results))
      else results)"
  by pat_completeness auto
termination
  by (relation "measure (\<lambda>(playerData, holeIndex, results). 9 - holeIndex)") auto

subsection \<open>analyzeSkins\<close>

text \<open>
  \<open>parsRow\<close> is computed and never used. The three setters are called after the filter
  and the map, so an exception leaves every cell as it was.
\<close>

definition analyzeSkins :: "row list \<Rightarrow> state \<Rightarrow> jserror + state" where
  "analyzeSkins data st =
     (let parsRow = find (\<lambda>row. strict_eq (idx row 2) (JStr (str ''Pars''))) data
      in case filterRows data of
           Inl e \<Rightarrow> Inl e
         | Inr playerRows \<Rightarrow>
             (let playerData = map toPlayer playerRows;
                  st1 = st\<lparr>players := playerData\<rparr>;
                  st2 = st1\<lparr>holeHandicaps := actualHoleHandicaps\<rparr>;
                  results = holeLoop playerData 0 []
              in Inr (st2\<lparr>skinsResults := results\<rparr>)))"

subsection \<open>Total skins by player (render)\<close>

definition Object_values :: "(nat \<times> 'v) list \<Rightarrow> 'v list" where
  "Object_values obj = map snd obj"

text \<open>\<open>totalValue\<close> of the render function, for one entry of \<open>players\<close>.\<close>

definition totalValue :: "state \<Rightarrow> player \<Rightarrow> int" where
  "totalValue st p =
     (let skinsWon = filter (\<lambda>result. strict_eq (winner result) (name p))
                       (Object_values (skinsResults st))
      in foldl (\<lambda>sum skin. sum + skinValue skin) 0 skinsWon)"

text \<open>The lines shown under "Total Skins by Player": players with a positive total.\<close>

definition totalSkinsByPlayer :: "state \<Rightarrow> (jsval \<times> int) list" where
  "totalSkinsByPlayer st =
     map (\<lambda>p. (name p, totalValue st p)) (filter (\<lambda>p. 0 < totalValue st p) (players st))"

subsection \<open>Notions used to state the properties\<close>

text \<open>The entry that the loop stores for one hole: hole number and result.\<close>

definition holeEntry :: "player list \<Rightarrow> nat \<Rightarrow> nat \<times> holeResult" where
  "holeEntry playerData holeIndex = (holeIndex + 1, holeResultOf playerData holeIndex)"

text \<open>
  A net score attains the minimum of a hole when it is at most every net score of the hole,
  itself included. Nothing is at most \<open>NaN\<close> and \<open>NaN\<close> is at most nothing, so on a
  hole with a \<open>NaN\<close> net score no score attains the minimum.
\<close>

definition attainsMinimum :: "jsnum list \<Rightarrow> jsnum \<Rightarrow> bool" where
  "attainsMinimum nets x = list_all (\<lambda>y. js_le x y) nets"

text \<open>
  A cell is an integer: a Number with an integral value, or a string that holds an
  optional sign and decimal digits, with white space around them and nothing else.
\<close>

definition isIntegerCell :: "jsval \<Rightarrow> bool" where
  "isIntegerCell v =
     (case v of
        JStr s \<Rightarrow>
          (let t = dropWhile isWhiteSpace s;
               u = (case t of [] \<Rightarrow> [] | c # cs \<Rightarrow> if isSign c then cs else t)
           in takeWhile isDigit u \<noteq> [] \<and> list_all isWhiteSpace (dropWhile isDigit u))
      | JNum x \<Rightarrow> (case x of Fin r \<Rightarrow> of_int \<lfloor>r\<rfloor> = r | _ \<Rightarrow> False)
      | _ \<Rightarrow> False)"

text \<open>
  A cell has no integer at its start: a string whose first code unit after the leading
  white space and one optional sign is no decimal digit, or that goes on with \<open>0x\<close> or
  \<open>0X\<close> and no hexadecimal digit behind it; \<open>undefined\<close>, \<open>null\<close>, a boolean, a
  \<open>Date\<close>, \<open>NaN\<close> or an infinity.
\<close>

definition isHexDigit :: "16 word \<Rightarrow> bool" where
  "isHexDigit c = (isDigit c \<or> (0x61 \<le> c \<and> c \<le> 0x66) \<or> (0x41 \<le> c \<and> c \<le> 0x46))"

definition noIntegerPrefix :: "jsval \<Rightarrow> bool" where
  "noIntegerPrefix v =
     (case v of
        JStr s \<Rightarrow>
          (let t = dropWhile isWhiteSpace s;
               u = (case t of [] \<Rightarrow> [] | c # cs \<Rightarrow> if isSign c then cs else t)
           in if take 2 u = str ''0x'' \<or> take 2 u = str ''0X''
              then (case drop 2 u of [] \<Rightarrow> True | d # ds \<Rightarrow> \<not> isHexDigit d)
              else (case u of [] \<Rightarrow> True | d # ds \<Rightarrow> \<not> isDigit d))
      | JNum x \<Rightarrow> (case x of Fin r \<Rightarrow> False | _ \<Rightarrow> True)
      | _ \<Rightarrow> True)"

text \<open>The number of holes whose winner is the name of a player.\<close>

definition holesWon :: "state \<Rightarrow> player \<Rightarrow> nat" where
  "holesWon st p =
     length (filter (\<lambda>result. strict_eq (winner result) (name p))
               (Object_values (skinsResults st)))"

subsection \<open>Example tables\<close>

text \<open>
  A round of two players as an uploaded file gives it (every cell a string): a header row,
  the row of pars, then Al with handicap 9 and Bo with handicap 0, whose third score is
  the letter x. \<open>exampleState\<close> is the state after \<open>analyzeSkins\<close> on it. \<open>typedRow\<close> is
  a player row as \<open>dynamicTyping\<close> gives it, with a number in the third cell.
\<close>

definition alRow :: row where
  "alRow = [JStr (str ''Al''), JStr [], JStr [], JStr (str ''4''), JStr (str ''5''),
            JStr (str ''4''), JStr (str ''6''), JStr (str ''3''), JStr (str ''5''),
            JStr (str ''4''), JStr (str ''4''), JStr (str ''5''), JStr (str ''40''),
            JStr (str ''9'')]"

definition boRow :: row where
  "boRow = [JStr (str ''Bo''), JStr [], JStr [], JStr (str ''4''), JStr (str ''4''),
            JStr (str ''x''), JStr (str ''6''), JStr (str ''4''), JStr (str ''5''),
            JStr (str ''5''), JStr (str ''4''), JStr (str ''5''), JStr (str ''41''),
            JStr (str ''0'')]"

definition headerRows :: "row list" where
  "headerRows = [[JStr (str ''Player''), JStr (str ''Tee''), JStr (str ''Round'')],
                 [JStr [], JStr [], JStr (str ''Pars''), JStr (str ''4''), JStr (str ''4''),
                  JStr (str ''3'')]]"

definition exampleRows :: "row list" where
  "exampleRows = headerRows @ [alRow, boRow]"

definition alPlayer :: player where
  "alPlayer = \<lparr>name = JStr (str ''Al''), fullHandicap = Fin 9, halfHandicap = Fin (9 / 2),
     scores = [Fin 4, Fin 5, Fin 4, Fin 6, Fin 3, Fin 5, Fin 4, Fin 4, Fin 5]\<rparr>"

definition boPlayer :: player where
  "boPlayer = \<lparr>name = JStr (str ''Bo''), fullHandicap = Fin 0, halfHandicap = Fin 0,
     scores = [Fin 4, Fin 4, NaN, Fin 6, Fin 4, Fin 5, Fin 5, Fin 4, Fin 5]\<rparr>"

definition exampleHole ::
  "jsval \<Rightarrow> int \<Rightarrow> jsnum \<Rightarrow> jsnum \<Rightarrow> int \<Rightarrow> jsnum \<Rightarrow> jsnum \<Rightarrow> holeResult" where
  "exampleHole w v alGross alNet alStrokes boGross boNet =
     \<lparr>winner = w, skinValue = v,
      holeScores =
        [\<lparr>playerName = JStr (str ''Al''), gross = Some alGross, net = alNet,
          strokes = alStrokes\<rparr>,
         \<lparr>playerName = JStr (str ''Bo''), gross = Some boGross, net = boNet, strokes = 0\<rparr>]\<rparr>"

definition exampleResults :: "(nat \<times> holeResult) list" where
  "exampleResults =
     [(1, exampleHole (JStr (str ''Al'')) 1 (Fin 4) (Fin 3) 1 (Fin 4) (Fin 4)),
      (2, exampleHole (JStr (str ''Bo'')) 1 (Fin 5) (Fin 5) 0 (Fin 4) (Fin 4)),
      (3, exampleHole (JStr (str ''No Winner'')) 0 (Fin 4) (Fin 4) 0 NaN NaN),
      (4, exampleHole (JStr (str ''Al'')) 1 (Fin 6) (Fin 5) 1 (Fin 6) (Fin 6)),
      (5, exampleHole (JStr (str ''Al'')) 1 (Fin 3) (Fin 3) 0 (Fin 4) (Fin 4)),
      (6, exampleHole (JStr (str ''No Winner'')) 0 (Fin 5) (Fin 5) 0 (Fin 5) (Fin 5)),
      (7, exampleHole (JStr (str ''Al'')) 1 (Fin 4) (Fin 4) 0 (Fin 5) (Fin 5)),
      (8, exampleHole (JStr (str ''No Winner'')) 0 (Fin 4) (Fin 4) 0 (Fin 4) (Fin 4)),
      (9, exampleHole (JStr (str ''No Winner'')) 0 (Fin 5) (Fin 5) 0 (Fin 5) (Fin 5))]"

definition exampleState :: state where
  "exampleState = \<lparr>players = [alPlayer, boPlayer], skinsResults = exampleResults,
     error = None, holeHandicaps = actualHoleHandicaps\<rparr>"

definition noWinner :: holeResult where
  "noWinner = \<lparr>winner = JStr (str ''No Winner''), skinValue = 0, holeScores = []\<rparr>"

definition emptyRoundResults :: "(nat \<times> holeResult) list" where
  "emptyRoundResults = [(1, noWinner), (2, noWinner), (3, noWinner), (4, noWinner), (5, noWinner),
     (6, noWinner), (7, noWinner), (8, noWinner), (9, noWinner)]"

definition typedRow :: row where
  "typedRow = [JStr (str ''Al''), JNull, JNum (Fin 1), JNum (Fin 4), JNum (Fin 5), JNum (Fin 4),
     JNum (Fin 6), JNum (Fin 3), JNum (Fin 5), JNum (Fin 4), JNum (Fin 4), JNum (Fin 5),
     JNum (Fin 40), JNum (Fin 9)]"

text \<open>
  Two more rounds of two players without handicap, each hole as the pair of gross scores
  with the winner and the value. In the first, Di's first score cell reads \<open>0abc\<close>. In the
  second, a player is named "No Winner".
\<close>

definition plainHole :: "jsval \<Rightarrow> jsval \<Rightarrow> jsval \<Rightarrow> int \<Rightarrow> jsnum \<Rightarrow> jsnum \<Rightarrow> holeResult" where
  "plainHole nameA nameB w v grossA grossB =
     \<lparr>winner = w, skinValue = v,
      holeScores =
        [\<lparr>playerName = nameA, gross = Some grossA, net = grossA, strokes = 0\<rparr>,
         \<lparr>playerName = nameB, gross = Some grossB, net = grossB, strokes = 0\<rparr>]\<rparr>"

definition plainPlayer :: "jsval \<Rightarrow> jsnum list \<Rightarrow> player" where
  "plainPlayer n ss = \<lparr>name = n, fullHandicap = Fin 0, halfHandicap = Fin 0, scores = ss\<rparr>"

definition cyRow :: row where
  "cyRow = [JStr (str ''Cy''), JStr [], JStr [], JStr (str ''4''), JStr (str ''4''),
            JStr (str ''4''), JStr (str ''4''), JStr (str ''4''), JStr (str ''4''),
            JStr (str ''4''), JStr (str ''4''), JStr (str ''4''), JStr (str ''36''),
            JStr (str ''0'')]"

definition diRow :: row where
  "diRow = [JStr (str ''Di''), JStr [], JStr [], JStr (str ''0abc''), JStr (str ''4''),
            JStr (str ''4''), JStr (str ''4''), JStr (str ''4''), JStr (str ''4''),
            JStr (str ''4''), JStr (str ''4''), JStr (str ''4''), JStr (str ''32''),
            JStr (str ''0'')]"

definition prefixRows :: "row list" where
  "prefixRows = headerRows @ [cyRow, diRow]"

definition prefixTie :: holeResult where
  "prefixTie = plainHole (JStr (str ''Cy'')) (JStr (str ''Di'')) (JStr (str ''No Winner'')) 0
     (Fin 4) (Fin 4)"

definition prefixState :: state where
  "prefixState =
     \<lparr>players = [plainPlayer (JStr (str ''Cy''))
                    [Fin 4, Fin 4, Fin 4, Fin 4, Fin 4, Fin 4, Fin 4, Fin 4, Fin 4],
                  plainPlayer (JStr (str ''Di''))
                    [Fin 0, Fin 4, Fin 4, Fin 4, Fin 4, Fin 4, Fin 4, Fin 4, Fin 4]],
      skinsResults =
        [(1, plainHole (JStr (str ''Cy'')) (JStr (str ''Di'')) (JStr (str ''Di'')) 1
               (Fin 4) (Fin 0)),
         (2, prefixTie), (3, prefixTie), (4, prefixTie), (5, prefixTie), (6, prefixTie),
         (7, prefixTie), (8, prefixTie), (9, prefixTie)],
      error = None, holeHandicaps = actualHoleHandicaps\<rparr>"

definition nwRow :: row where
  "nwRow = [JStr (str ''No Winner''), JStr [], JStr [], JStr (str ''4''), JStr (str ''4''),
            JStr (str ''4''), JStr (str ''4''), JStr (str ''4''), JStr (str ''4''),
            JStr (str ''4''), JStr (str ''4''), JStr (str ''4''), JStr (str ''36''),
            JStr (str ''0'')]"

definition edRow :: row where
  "edRow = [JStr (str ''Ed''), JStr [], JStr [], JStr (str ''3''), JStr (str ''5''),
            JStr (str ''4''), JStr (str ''4''), JStr (str ''4''), JStr (str ''4''),
            JStr (str ''4''), JStr (str ''4''), JStr (str ''4''), JStr (str ''36''),
            JStr (str ''0'')]"

definition sentinelRows :: "row list" where
  "sentinelRows = headerRows @ [nwRow, edRow]"

definition nwPlayer :: player where
  "nwPlayer = plainPlayer (JStr (str ''No Winner''))
     [Fin 4, Fin 4, Fin 4, Fin 4, Fin 4, Fin 4, Fin 4, Fin 4, Fin 4]"

definition edPlayer :: player where
  "edPlayer = plainPlayer (JStr (str ''Ed''))
     [Fin 3, Fin 5, Fin 4, Fin 4, Fin 4, Fin 4, Fin 4, Fin 4, Fin 4]"

definition sentinelTie :: holeResult where
  "sentinelTie = plainHole (JStr (str ''No Winner'')) (JStr (str ''Ed''))
     (JStr (str ''No Winner'')) 0 (Fin 4) (Fin 4)"

definition sentinelState :: state where
  "sentinelState =
     \<lparr>players = [nwPlayer, edPlayer],
      skinsResults =
        [(1, plainHole (JStr (str ''No Winner'')) (JStr (str ''Ed'')) (JStr (str ''Ed'')) 1
               (Fin 4) (Fin 3)),
         (2, plainHole (JStr (str ''No Winner'')) (JStr (str ''Ed''))
               (JStr (str ''No Winner'')) 1 (Fin 4) (Fin 5)),
         (3, sentinelTie), (4, sentinelTie), (5, sentinelTie), (6, sentinelTie),
         (7, sentinelTie), (8, sentinelTie), (9, sentinelTie)],
      error = None, holeHandicaps = actualHoleHandicaps\<rparr>"

section \<open>Properties\<close>

subsection \<open>The stroke rule\<close>

lemma trunc_eq_iff_Ints: "real_of_int (trunc h) = h \<longleftrightarrow> h \<in> \<int>"
  unfolding trunc_def
  by (auto simp: Ints_def intro: floor_of_int ceiling_of_int)

lemma rem_one_zero_iff: "num_strict_eq (js_rem (Fin h) (Fin 1)) (Fin 0) \<longleftrightarrow> h \<in> \<int>"
  using trunc_eq_iff_Ints [of h] by (auto simp: num_strict_eq_def)

lemma calculateStrokesReceived_Fin:
  "calculateStrokesReceived (Fin h) (Fin d) =
     (if h \<in> \<int> then (if d \<le> h then 1 else 0) else (if d \<le> of_int \<lceil>h\<rceil> then 1 else 0))"
  unfolding calculateStrokesReceived_def rem_one_zero_iff by simp

lemma nine_halves_not_whole: "(9 / 2 :: real) \<notin> \<int>"
proof
  assume "(9 / 2 :: real) \<in> \<int>"
  then obtain k :: int where "(9 / 2 :: real) = of_int k"
    by (auto simp: Ints_def)
  then have "real_of_int (2 * k) = real_of_int 9"
    by simp
  then have "2 * k = 9"
    by (simp only: of_int_eq_iff)
  then show False
    by presburger
qed

text \<open>
  C10. The number of strokes received is 0 or 1, never negative and never more, for every
  half handicap and every hole handicap: every finite value (real half handicaps and
  integer hole handicaps among them), the infinities and \<open>NaN\<close>.
\<close>

theorem strokes_zero_or_one:
  "calculateStrokesReceived x y = 0 \<or> calculateStrokesReceived x y = 1"
  by (simp add: calculateStrokesReceived_def)

text \<open>
  C2. For a half handicap \<open>h\<close> that is no whole number, a stroke is received exactly on
  the holes whose handicap is at most the ceiling of \<open>h\<close>; for a whole \<open>h\<close>, exactly on
  those whose handicap is at most \<open>h\<close>. With \<open>h = 4.5\<close> a hole of handicap 5 gets the
  stroke and one of handicap 6 does not. This holds for every real \<open>h\<close>, so for the
  non-negative halves of a full handicap.
\<close>

theorem strokes_rule:
  "(h \<notin> \<int> \<longrightarrow> (calculateStrokesReceived (Fin h) (Fin (of_int d)) = 1 \<longleftrightarrow> d \<le> \<lceil>h\<rceil>)) \<and>
   (h \<in> \<int> \<longrightarrow> (calculateStrokesReceived (Fin h) (Fin (of_int d)) = 1 \<longleftrightarrow> of_int d \<le> h)) \<and>
   calculateStrokesReceived (Fin (9 / 2)) (Fin 5) = 1 \<and>
   calculateStrokesReceived (Fin (9 / 2)) (Fin 6) = 0"
proof -
  have five: "\<lceil>9 / 2 :: real\<rceil> = 5"
    by simp
  show ?thesis
    by (simp add: calculateStrokesReceived_Fin nine_halves_not_whole five)
qed

theorem strokes_rule_witness:
  "(9 / 2 :: real) \<notin> \<int> \<and> (4 :: real) \<in> \<int> \<and>
   calculateStrokesReceived (Fin (9 / 2)) (Fin 5) = 1 \<and>
   calculateStrokesReceived (Fin (9 / 2)) (Fin 6) = 0 \<and>
   calculateStrokesReceived (Fin 4) (Fin 4) = 1 \<and>
   calculateStrokesReceived (Fin 4) (Fin 5) \<noteq> 1"
proof -
  have five: "\<lceil>9 / 2 :: real\<rceil> = 5"
    by simp
  have whole: "(4 :: real) \<in> \<int>"
    by simp
  show ?thesis
    using strokes_rule [of "9 / 2" 5] strokes_rule [of "9 / 2" 6]
      strokes_rule [of 4 4] strokes_rule [of 4 5] five whole nine_halves_not_whole
    by simp
qed

subsection \<open>Rounding to binary64\<close>

declare bitLength.simps [simp del]

declare numDigits.simps [simp del]

lemma bitLength_bounds: "0 < n \<Longrightarrow> 2 ^ bitLength n \<le> 2 * n \<and> n < 2 ^ bitLength n"
proof (induction n rule: bitLength.induct)
  case (1 n)
  show ?case
  proof (cases "n = 1")
    case True
    then show ?thesis
      by (simp add: bitLength.simps [of 1] bitLength.simps [of 0])
  next
    case False
    with "1.prems" have pos: "0 < n div 2" and nle: "\<not> n \<le> 0"
      by simp_all
    from "1.IH" [OF nle pos]
    have ih: "2 ^ bitLength (n div 2) \<le> 2 * (n div 2)" "n div 2 < 2 ^ bitLength (n div 2)"
      by simp_all
    have bl: "bitLength n = Suc (bitLength (n div 2))"
      using nle by (subst bitLength.simps) simp
    from ih show ?thesis
      unfolding bl by (simp; presburger)
  qed
qed

lemma roundHalfEven_of_int [simp]: "roundHalfEven (of_int k) = k"
  by (simp add: roundHalfEven_def)

lemma ilog2_lower:
  assumes "1 \<le> a"
  shows "0 \<le> ilog2 a" and "2 ^ nat (ilog2 a) \<le> a"
proof -
  define n where "n = \<lfloor>a\<rfloor>"
  define b where "b = bitLength n"
  have n: "0 < n"
    using assms by (simp add: n_def)
  from bitLength_bounds [OF n] have bb: "2 ^ b \<le> 2 * n" "n < 2 ^ b"
    by (simp_all add: b_def)
  have b1: "1 \<le> b"
    using bb(2) n by (cases b) simp_all
  have il: "ilog2 a = int b - 1"
    using assms by (simp add: ilog2_def n_def b_def)
  show "0 \<le> ilog2 a"
    using b1 by (simp add: il)
  have "(2::int) ^ (b - 1) \<le> n"
    using bb(1) b1 by (cases b) simp_all
  then have "(2::real) ^ (b - 1) \<le> of_int n"
    by (metis of_int_le_iff of_int_numeral of_int_power)
  also have "\<dots> \<le> a"
    by (simp add: n_def)
  finally show "2 ^ nat (ilog2 a) \<le> a"
    using b1 by (simp add: il nat_diff_distrib)
qed

text \<open>
  A value of magnitude at least 1 that is an integer below \<open>2^53\<close> over a power of two
  is a binary64 value: rounding leaves it as it is.
\<close>

lemma toBinary64_exact:
  assumes "1 \<le> \<bar>x\<bar>" and "x * 2 ^ j = of_int m" and "\<bar>m\<bar> < 2 ^ 53"
  shows "toBinary64 x = Fin x"
proof -
  define a where "a = \<bar>x\<bar>"
  define e where "e = nat (ilog2 a)"
  have a1: "1 \<le> a"
    using assms(1) by (simp add: a_def)
  from ilog2_lower [OF a1] have il: "ilog2 a = int e" and lo: "2 ^ e \<le> a"
    by (simp_all add: e_def)
  have "\<bar>x * 2 ^ j\<bar> = \<bar>real_of_int m\<bar>"
    using assms(2) by simp
  then have am: "a * 2 ^ j = of_int \<bar>m\<bar>"
    by (simp add: a_def abs_mult)
  have "of_int \<bar>m\<bar> < (2::real) ^ 53"
    using assms(3) by (metis of_int_less_iff of_int_numeral of_int_power)
  with am have lt: "a * 2 ^ j < 2 ^ 53"
    by simp
  have "(2::real) ^ (e + j) \<le> a * 2 ^ j"
    using lo by (simp add: power_add)
  with lt have "(2::real) ^ (e + j) < 2 ^ 53"
    by simp
  then have ej: "e + j < 53"
    by (rule power_less_imp_less_exp [rotated]) simp
  define t where "t = 52 - e - j"
  define r where "r = j + t"
  have q: "max (ilog2 a - 52) (- 1074) = - int r"
    using ej by (simp add: il t_def r_def)
  have p: "pow2 (- int r) = 1 / 2 ^ r"
    by (cases "r = 0") (simp_all add: pow2_def)
  have ar: "a * 2 ^ r = of_int (\<bar>m\<bar> * 2 ^ t)"
  proof -
    have "a * 2 ^ r = (a * 2 ^ j) * 2 ^ t"
      by (simp add: r_def power_add)
    then show ?thesis
      by (simp add: am)
  qed
  have ratio: "a / pow2 (- int r) = of_int (\<bar>m\<bar> * 2 ^ t)"
    unfolding p using ar by simp
  have "of_int (roundHalfEven (a / pow2 (- int r))) = a * 2 ^ r"
    unfolding ratio roundHalfEven_of_int ar ..
  then have v: "of_int (roundHalfEven (a / pow2 (- int r))) * pow2 (- int r) = a"
    by (simp add: p)
  have "a \<le> a * 2 ^ j"
    using a1 by (simp add: mult_le_cancel_left1)
  with lt have "a < 2 ^ 53"
    by simp
  also have "(2::real) ^ 53 < 2 ^ 1024"
    by (simp add: power_strict_increasing_iff)
  finally have small: "\<not> (2::real) ^ 1024 \<le> a"
    by simp
  have x0: "x \<noteq> 0"
    using assms(1) by auto
  show ?thesis
    unfolding toBinary64_def a_def [symmetric] Let_def q v
    using x0 small by (auto simp: a_def)
qed

lemma toBinary64_of_int: "\<bar>n\<bar> < 2 ^ 53 \<Longrightarrow> toBinary64 (of_int n) = Fin (of_int n)"
proof (cases "n = 0")
  case True
  then show ?thesis
    by (simp add: toBinary64_def)
next
  case False
  assume "\<bar>n\<bar> < 2 ^ 53"
  with False show ?thesis
    by (intro toBinary64_exact [where j = 0 and m = n]) simp_all
qed

lemma toBinary64_zero: "toBinary64 0 = Fin 0"
  by (simp add: toBinary64_def)

lemma toBinary64_one: "toBinary64 1 = Fin 1"
  using toBinary64_of_int [of 1] by simp

lemma toBinary64_numeral:
  "(numeral k :: int) < 2 ^ 53 \<Longrightarrow> toBinary64 (numeral k) = Fin (numeral k)"
  using toBinary64_of_int [of "numeral k"] by simp

lemma toBinary64_nine_halves: "toBinary64 (9 / 2) = Fin (9 / 2)"
  by (rule toBinary64_exact [where j = 1 and m = 9]) simp_all

lemma toBinary64_not_NaN: "toBinary64 x \<noteq> NaN"
  by (simp add: toBinary64_def Let_def)

lemmas toBinary64_small = toBinary64_zero toBinary64_one toBinary64_numeral toBinary64_nine_halves

subsection \<open>The loop over the holes\<close>

lemma setProperty_fresh: "k \<notin> fst ` set ps \<Longrightarrow> setProperty k v ps = ps @ [(k, v)]"
  by (induction ps) auto

lemma holeLoop_from:
  "i \<le> 9 \<Longrightarrow> holeLoop pd i (map (holeEntry pd) [0..<i]) = map (holeEntry pd) [0..<9]"
proof (induction "9 - i" arbitrary: i)
  case 0
  then have "i = 9"
    by simp
  then show ?case
    by (subst holeLoop.simps) simp
next
  case (Suc n)
  then have lt: "i < 9" and n: "n = 9 - (i + 1)" and le: "i + 1 \<le> 9"
    by simp_all
  have fresh: "i + 1 \<notin> fst ` set (map (holeEntry pd) [0..<i])"
    by (auto simp: holeEntry_def)
  have step: "setProperty (i + 1) (holeResultOf pd i) (map (holeEntry pd) [0..<i])
                = map (holeEntry pd) [0..<i + 1]"
    using setProperty_fresh [OF fresh] by (simp add: holeEntry_def)
  have "holeLoop pd i (map (holeEntry pd) [0..<i])
          = holeLoop pd (i + 1) (map (holeEntry pd) [0..<i + 1])"
    using lt by (subst holeLoop.simps) (simp only: step Let_def if_True)
  also have "\<dots> = map (holeEntry pd) [0..<9]"
    using Suc.hyps(1) [OF n le] .
  finally show ?case .
qed

lemma holeLoop_all: "holeLoop pd 0 [] = map (holeEntry pd) [0..<9]"
  using holeLoop_from [of 0 pd] by simp

lemma analyzeSkins_Inr:
  "analyzeSkins data st = Inr st' \<longleftrightarrow>
     (\<exists>playerRows. filterRows data = Inr playerRows \<and>
        st' = st\<lparr>players := map toPlayer playerRows,
                 holeHandicaps := actualHoleHandicaps,
                 skinsResults := map (holeEntry (map toPlayer playerRows)) [0..<9]\<rparr>)"
  unfolding analyzeSkins_def holeLoop_all Let_def
  by (cases "filterRows data") auto

lemma analyzeSkins_Inl: "analyzeSkins data st = Inl e \<longleftrightarrow> filterRows data = Inl e"
  by (auto simp: analyzeSkins_def Let_def split: sum.splits)

subsection \<open>The example rounds, evaluated\<close>

lemmas parse_defs = parseInt_string_def parseFloat_string_def trimStart_def isWhiteSpace_def
  isRadixDigit_def digitValue_def radixValue_def isDigit_def isSign_def exponentPart_def
  pow10_def str_def toBinary64_small

lemmas row_defs = isPlayerRow_def idx_def str_def

lemmas hole_defs = holeEntry_def holeResultOf_def netScoreOf_def actualHoleHandicaps_def
  calculateStrokesReceived_Fin nine_halves_not_whole js_min2_def num_strict_eq_def Let_def
  toBinary64_small

lemma header_filter: "filterRows headerRows = Inr []"
  by (simp add: headerRows_def row_defs)

lemma example_filter: "filterRows exampleRows = Inr [alRow, boRow]"
  by (simp add: exampleRows_def headerRows_def alRow_def boRow_def row_defs)

lemma toPlayer_al: "toPlayer alRow = alPlayer"
  by (simp add: alRow_def alPlayer_def toPlayer_def idx_def slice_def or_zero_def parse_defs)

lemma toPlayer_bo: "toPlayer boRow = boPlayer"
  by (simp add: boRow_def boPlayer_def toPlayer_def idx_def slice_def or_zero_def parse_defs)

lemma upt_9: "[0..<9] = [0, 1, 2, 3, 4, 5, 6, 7, 8]"
  by (simp add: upt_rec)

lemma example_results: "map (holeEntry [alPlayer, boPlayer]) [0..<9] = exampleResults"
  unfolding upt_9
  by (simp add: exampleResults_def exampleHole_def alPlayer_def boPlayer_def hole_defs)

lemma example_run: "analyzeSkins exampleRows initialState = Inr exampleState"
  by (simp add: analyzeSkins_Inr example_filter toPlayer_al toPlayer_bo example_results
      exampleState_def initialState_def del: upt_Suc)

lemma empty_results: "map (holeEntry []) [0..<9] = emptyRoundResults"
  unfolding upt_9
  by (simp add: holeEntry_def emptyRoundResults_def noWinner_def holeResultOf_def)

lemma header_run:
  "analyzeSkins headerRows initialState =
     Inr \<lparr>players = [], skinsResults = emptyRoundResults, error = None,
          holeHandicaps = actualHoleHandicaps\<rparr>"
  by (simp add: analyzeSkins_Inr header_filter empty_results initialState_def del: upt_Suc)

lemma example_state_simps:
  "players exampleState = [alPlayer, boPlayer]"
  "skinsResults exampleState = exampleResults"
  "holeHandicaps exampleState = actualHoleHandicaps"
  by (simp_all add: exampleState_def)

lemma prefix_filter: "filterRows prefixRows = Inr [cyRow, diRow]"
  by (simp add: prefixRows_def headerRows_def cyRow_def diRow_def row_defs)

lemma prefix_players: "map toPlayer [cyRow, diRow] = players prefixState"
  by (simp add: cyRow_def diRow_def prefixState_def plainPlayer_def toPlayer_def idx_def
      slice_def or_zero_def parse_defs)

lemma prefix_results:
  "map (holeEntry (players prefixState)) [0..<9] = skinsResults prefixState"
  unfolding upt_9
  by (simp add: prefixState_def prefixTie_def plainHole_def plainPlayer_def hole_defs)

lemma prefix_run: "analyzeSkins prefixRows initialState = Inr prefixState"
  by (simp add: analyzeSkins_Inr prefix_filter prefix_players prefix_results initialState_def
      del: upt_Suc list.map)
    (simp add: prefixState_def)

lemma sentinel_filter: "filterRows sentinelRows = Inr [nwRow, edRow]"
  by (simp add: sentinelRows_def headerRows_def nwRow_def edRow_def row_defs)

lemma sentinel_players: "map toPlayer [nwRow, edRow] = players sentinelState"
  by (simp add: nwRow_def edRow_def sentinelState_def nwPlayer_def edPlayer_def plainPlayer_def
      toPlayer_def idx_def slice_def or_zero_def parse_defs)

lemma sentinel_results:
  "map (holeEntry (players sentinelState)) [0..<9] = skinsResults sentinelState"
  unfolding upt_9
  by (simp add: sentinelState_def sentinelTie_def nwPlayer_def edPlayer_def plainHole_def
      plainPlayer_def hole_defs)

lemma sentinel_run: "analyzeSkins sentinelRows initialState = Inr sentinelState"
  by (simp add: analyzeSkins_Inr sentinel_filter sentinel_players sentinel_results
      initialState_def del: upt_Suc list.map)
    (simp add: sentinelState_def)

subsection \<open>The lowest net score\<close>

lemma js_le_refl: "x \<noteq> NaN \<Longrightarrow> js_le x x"
  by (cases x) auto

lemma js_le_antisym: "js_le x y \<Longrightarrow> js_le y x \<Longrightarrow> x = y"
  by (cases x; cases y) auto

lemma js_le_trans: "js_le x y \<Longrightarrow> js_le y z \<Longrightarrow> js_le x z"
  by (cases x; cases y; cases z) auto

lemma js_le_total: "x \<noteq> NaN \<Longrightarrow> y \<noteq> NaN \<Longrightarrow> js_le x y \<or> js_le y x"
  by (cases x; cases y) auto

lemma js_le_NaN [simp]: "\<not> js_le x NaN" "\<not> js_le NaN x"
  by (cases x; simp)+

lemma js_le_PosInf [simp]: "js_le x PosInf \<longleftrightarrow> x \<noteq> NaN"
  by (cases x) auto

lemma Math_min_NaN: "NaN \<in> set xs \<Longrightarrow> Math_min xs = NaN"
  by (induction xs) (auto simp: js_min2_def)

lemma Math_min_not_NaN: "NaN \<notin> set xs \<Longrightarrow> Math_min xs \<noteq> NaN"
  by (induction xs) (auto simp: js_min2_def)

lemma Math_min_le: "NaN \<notin> set xs \<Longrightarrow> y \<in> set xs \<Longrightarrow> js_le (Math_min xs) y"
proof (induction xs)
  case Nil
  then show ?case by simp
next
  case (Cons x xs)
  have m: "Math_min xs \<noteq> NaN" and x: "x \<noteq> NaN"
    using Cons.prems(1) Math_min_not_NaN [of xs] by auto
  show ?case
  proof (cases "y = x")
    case True
    with x m js_le_total [of x "Math_min xs"] show ?thesis
      by (auto simp: js_min2_def js_le_refl)
  next
    case False
    with Cons have "js_le (Math_min xs) y" by auto
    with x m show ?thesis
      by (auto simp: js_min2_def intro: js_le_trans)
  qed
qed

lemma Math_min_in: "NaN \<notin> set xs \<Longrightarrow> xs \<noteq> [] \<Longrightarrow> Math_min xs \<in> set xs"
proof (induction xs)
  case Nil
  then show ?case by simp
next
  case (Cons x xs)
  show ?case
  proof (cases "xs = []")
    case True
    with Cons.prems show ?thesis by (auto simp: js_min2_def)
  next
    case False
    with Cons show ?thesis by (auto simp: js_min2_def)
  qed
qed

lemma lowest_iff_attains:
  assumes "x \<in> set xs"
  shows "num_strict_eq x (Math_min xs) \<longleftrightarrow> attainsMinimum xs x"
proof (cases "NaN \<in> set xs")
  case True
  then have "\<not> attainsMinimum xs x"
    unfolding attainsMinimum_def list_all_iff using js_le_NaN(1) by blast
  with True show ?thesis
    by (simp add: Math_min_NaN num_strict_eq_def)
next
  case False
  with assms have ne: "xs \<noteq> []" and x: "x \<noteq> NaN"
    by auto
  show ?thesis
  proof
    assume "num_strict_eq x (Math_min xs)"
    then have "x = Math_min xs" by (simp add: num_strict_eq_def)
    with False show "attainsMinimum xs x"
      by (auto simp: attainsMinimum_def list_all_iff intro: Math_min_le)
  next
    assume a: "attainsMinimum xs x"
    from Math_min_in [OF False ne] a have "js_le x (Math_min xs)"
      by (auto simp: attainsMinimum_def list_all_iff)
    moreover from Math_min_le [OF False assms] have "js_le (Math_min xs) x" .
    ultimately have "x = Math_min xs" by (rule js_le_antisym)
    with x show "num_strict_eq x (Math_min xs)" by (simp add: num_strict_eq_def)
  qed
qed

lemma winners_attain:
  "filter (\<lambda>s. num_strict_eq (net s) (Math_min (map net ns))) ns
     = filter (\<lambda>s. attainsMinimum (map net ns) (net s)) ns"
  by (rule filter_cong [OF refl]) (simp add: lowest_iff_attains)

lemma holeResultOf_attain:
  "holeResultOf pd i =
     (let netScores = map (netScoreOf (actualHoleHandicaps ! i) i) pd;
          winners = filter (\<lambda>s. attainsMinimum (map net netScores) (net s)) netScores
      in if length winners = 1
         then \<lparr>winner = playerName (hd winners), skinValue = 1, holeScores = netScores\<rparr>
         else \<lparr>winner = JStr (str ''No Winner''), skinValue = 0, holeScores = netScores\<rparr>)"
  unfolding holeResultOf_def Let_def winners_attain ..

lemma holeScores_holeResultOf [simp]:
  "holeScores (holeResultOf pd i) = map (netScoreOf (actualHoleHandicaps ! i) i) pd"
  by (simp add: holeResultOf_def Let_def)

lemma holeEntry_keys: "map fst (map (holeEntry pd) [0..<n]) = map Suc [0..<n]"
  by (simp add: holeEntry_def comp_def)

lemma results_lookup:
  assumes "analyzeSkins data st = Inr st'" and "i < 9"
  shows "map_of (skinsResults st') (i + 1) = Some (holeResultOf (players st') i)"
proof -
  let ?rs = "map (holeEntry (players st')) [0..<9]"
  have rs: "skinsResults st' = ?rs"
    using assms(1) by (auto simp: analyzeSkins_Inr)
  have "distinct (map fst ?rs)"
    unfolding holeEntry_keys by (simp add: distinct_map del: upt_Suc)
  moreover have "(i + 1, holeResultOf (players st') i) \<in> set ?rs"
    using assms(2) by (auto simp: holeEntry_def image_iff simp del: upt_Suc)
  ultimately show ?thesis
    unfolding rs by (rule map_of_is_SomeI)
qed

lemma results_keys:
  assumes "analyzeSkins data st = Inr st'"
  shows "map fst (skinsResults st') = [1, 2, 3, 4, 5, 6, 7, 8, 9]"
proof -
  have "skinsResults st' = map (holeEntry (players st')) [0..<9]"
    using assms by (auto simp: analyzeSkins_Inr)
  then show ?thesis
    by (simp add: holeEntry_def upt_9)
qed

lemma calculateStrokesReceived_range:
  "calculateStrokesReceived x y = 0 \<or> calculateStrokesReceived x y = 1"
  by (simp add: calculateStrokesReceived_def)

lemma netScoreOf_fields:
  "playerName (netScoreOf hh i p) = name p"
  "gross (netScoreOf hh i p) = (if i < length (scores p) then Some (scores p ! i) else None)"
  "strokes (netScoreOf hh i p) = calculateStrokesReceived (halfHandicap p) hh"
  "net (netScoreOf hh i p) =
     (case gross (netScoreOf hh i p) of
        None \<Rightarrow> NaN
      | Some g \<Rightarrow> js_sub g (Fin (of_int (strokes (netScoreOf hh i p)))))"
  by (simp_all add: netScoreOf_def Let_def)

lemma js_sub_small_int:
  assumes "\<bar>n\<bar> < 2 ^ 52" and "s = 0 \<or> s = 1"
  shows "js_sub (Fin (of_int n)) (Fin (of_int s)) = Fin (of_int n - of_int s)"
proof -
  have "\<bar>n - s\<bar> < 2 ^ 53"
    using assms by auto
  from toBinary64_of_int [OF this] show ?thesis
    by simp
qed

lemma holeResultOf_case:
  "case filter (\<lambda>s. attainsMinimum (map net (holeScores (holeResultOf pd i))) (net s))
          (holeScores (holeResultOf pd i)) of
     [w] \<Rightarrow> skinValue (holeResultOf pd i) = 1 \<and> winner (holeResultOf pd i) = playerName w
   | _ \<Rightarrow> skinValue (holeResultOf pd i) = 0 \<and>
         winner (holeResultOf pd i) = JStr (str ''No Winner'')"
proof -
  define ns where "ns = map (netScoreOf (actualHoleHandicaps ! i) i) pd"
  define ws where "ws = filter (\<lambda>s. attainsMinimum (map net ns) (net s)) ns"
  have hs: "holeScores (holeResultOf pd i) = ns"
    by (simp add: ns_def)
  have res: "holeResultOf pd i =
      (if length ws = 1
       then \<lparr>winner = playerName (hd ws), skinValue = 1, holeScores = ns\<rparr>
       else \<lparr>winner = JStr (str ''No Winner''), skinValue = 0, holeScores = ns\<rparr>)"
    unfolding ws_def ns_def by (simp add: holeResultOf_attain Let_def)
  have "case ws of
          [w] \<Rightarrow> skinValue (holeResultOf pd i) = 1 \<and> winner (holeResultOf pd i) = playerName w
        | _ \<Rightarrow> skinValue (holeResultOf pd i) = 0 \<and>
              winner (holeResultOf pd i) = JStr (str ''No Winner'')"
  proof (cases ws)
    case Nil
    with res show ?thesis by simp
  next
    case (Cons w ws')
    with res show ?thesis by (cases ws') simp_all
  qed
  then show ?thesis
    unfolding hs ws_def [symmetric] .
qed

text \<open>
  C1. After every successful analysis there is exactly one result for each hole 1 to 9.
  It holds one net score per player, in order: the player's name, the gross score read at
  the hole's index, the strokes of the stroke rule at the hole's handicap, and as net
  score the gross score minus the strokes (exactly that difference for an integer score
  below \<open>2^52\<close> in magnitude, \<open>NaN\<close> for a score that is \<open>undefined\<close>). \<open>skinValue\<close> is
  1 and \<open>winner\<close> is the name of the player whose net score attains the minimum when
  exactly one net score of the hole does; in every other case (several attain it, or
  none, as with no player at all) \<open>skinValue\<close> is 0 and \<open>winner\<close> is "No Winner".
\<close>

theorem hole_winner:
  assumes "analyzeSkins data st = Inr st'"
  shows "map fst (skinsResults st') = [1, 2, 3, 4, 5, 6, 7, 8, 9] \<and>
         (\<forall>i<9. \<exists>r. map_of (skinsResults st') (i + 1) = Some r \<and>
            length (holeScores r) = length (players st') \<and>
            (\<forall>k<length (players st').
               playerName (holeScores r ! k) = name (players st' ! k) \<and>
               gross (holeScores r ! k) =
                 (if i < length (scores (players st' ! k))
                  then Some (scores (players st' ! k) ! i) else None) \<and>
               strokes (holeScores r ! k) =
                 calculateStrokesReceived (halfHandicap (players st' ! k))
                   (actualHoleHandicaps ! i) \<and>
               net (holeScores r ! k) =
                 (case gross (holeScores r ! k) of
                    None \<Rightarrow> NaN
                  | Some g \<Rightarrow> js_sub g (Fin (of_int (strokes (holeScores r ! k))))) \<and>
               (\<forall>n. gross (holeScores r ! k) = Some (Fin (of_int n)) \<and> \<bar>n\<bar> < 2 ^ 52 \<longrightarrow>
                  net (holeScores r ! k) =
                    Fin (of_int n - of_int (strokes (holeScores r ! k))))) \<and>
            (case filter (\<lambda>s. attainsMinimum (map net (holeScores r)) (net s))
                    (holeScores r) of
               [w] \<Rightarrow> skinValue r = 1 \<and> winner r = playerName w
             | _ \<Rightarrow> skinValue r = 0 \<and> winner r = JStr (str ''No Winner'')) \<and>
            (players st' = [] \<longrightarrow>
               skinValue r = 0 \<and> winner r = JStr (str ''No Winner'')))"
proof (intro conjI allI impI)
  show "map fst (skinsResults st') = [1, 2, 3, 4, 5, 6, 7, 8, 9]"
    using assms by (rule results_keys)
next
  fix i :: nat
  assume i: "i < 9"
  let ?pd = "players st'"
  let ?hh = "actualHoleHandicaps ! i"
  let ?r = "holeResultOf ?pd i"
  have look: "map_of (skinsResults st') (i + 1) = Some ?r"
    using assms i by (rule results_lookup)
  have len: "length (holeScores ?r) = length ?pd"
    by simp
  have fields: "playerName (holeScores ?r ! k) = name (?pd ! k) \<and>
      gross (holeScores ?r ! k) =
        (if i < length (scores (?pd ! k)) then Some (scores (?pd ! k) ! i) else None) \<and>
      strokes (holeScores ?r ! k) = calculateStrokesReceived (halfHandicap (?pd ! k)) ?hh \<and>
      net (holeScores ?r ! k) =
        (case gross (holeScores ?r ! k) of
           None \<Rightarrow> NaN
         | Some g \<Rightarrow> js_sub g (Fin (of_int (strokes (holeScores ?r ! k))))) \<and>
      (\<forall>n. gross (holeScores ?r ! k) = Some (Fin (of_int n)) \<and> \<bar>n\<bar> < 2 ^ 52 \<longrightarrow>
         net (holeScores ?r ! k) = Fin (of_int n - of_int (strokes (holeScores ?r ! k))))"
    if k: "k < length ?pd" for k
  proof -
    let ?s = "netScoreOf ?hh i (?pd ! k)"
    have s: "holeScores ?r ! k = ?s"
      using k by simp
    have st: "strokes ?s = 0 \<or> strokes ?s = 1"
      using calculateStrokesReceived_range by (simp add: netScoreOf_fields)
    have "net ?s = Fin (of_int n - of_int (strokes ?s))"
      if "gross ?s = Some (Fin (of_int n))" and "\<bar>n\<bar> < 2 ^ 52" for n
      using that js_sub_small_int [OF that(2) st] by (simp add: netScoreOf_fields(4))
    then show ?thesis
      unfolding s using netScoreOf_fields [of ?hh i "?pd ! k"] by blast
  qed
  have empty: "players st' = [] \<longrightarrow>
      skinValue ?r = 0 \<and> winner ?r = JStr (str ''No Winner'')"
    by (simp add: holeResultOf_def)
  show "\<exists>r. map_of (skinsResults st') (i + 1) = Some r \<and>
            length (holeScores r) = length (players st') \<and>
            (\<forall>k<length (players st').
               playerName (holeScores r ! k) = name (players st' ! k) \<and>
               gross (holeScores r ! k) =
                 (if i < length (scores (players st' ! k))
                  then Some (scores (players st' ! k) ! i) else None) \<and>
               strokes (holeScores r ! k) =
                 calculateStrokesReceived (halfHandicap (players st' ! k))
                   (actualHoleHandicaps ! i) \<and>
               net (holeScores r ! k) =
                 (case gross (holeScores r ! k) of
                    None \<Rightarrow> NaN
                  | Some g \<Rightarrow> js_sub g (Fin (of_int (strokes (holeScores r ! k))))) \<and>
               (\<forall>n. gross (holeScores r ! k) = Some (Fin (of_int n)) \<and> \<bar>n\<bar> < 2 ^ 52 \<longrightarrow>
                  net (holeScores r ! k) =
                    Fin (of_int n - of_int (strokes (holeScores r ! k))))) \<and>
            (case filter (\<lambda>s. attainsMinimum (map net (holeScores r)) (net s))
                    (holeScores r) of
               [w] \<Rightarrow> skinValue r = 1 \<and> winner r = playerName w
             | _ \<Rightarrow> skinValue r = 0 \<and> winner r = JStr (str ''No Winner'')) \<and>
            (players st' = [] \<longrightarrow>
               skinValue r = 0 \<and> winner r = JStr (str ''No Winner''))"
    using look len fields holeResultOf_case [of ?pd i] empty
    by (intro exI [of _ ?r]) blast
qed

theorem hole_winner_witness:
  "analyzeSkins exampleRows initialState = Inr exampleState \<and>
   map fst (skinsResults exampleState) = [1, 2, 3, 4, 5, 6, 7, 8, 9] \<and>
   (0::nat) < 9 \<and> (0::nat) < length (players exampleState) \<and>
   map_of (skinsResults exampleState) (0 + 1)
     = Some (exampleHole (JStr (str ''Al'')) 1 (Fin 4) (Fin 3) 1 (Fin 4) (Fin 4)) \<and>
   gross (holeScores (exampleHole (JStr (str ''Al'')) 1 (Fin 4) (Fin 3) 1 (Fin 4) (Fin 4)) ! 0)
     = Some (Fin (of_int 4)) \<and>
   \<bar>4 :: int\<bar> < 2 ^ 52 \<and>
   net (holeScores (exampleHole (JStr (str ''Al'')) 1 (Fin 4) (Fin 3) 1 (Fin 4) (Fin 4)) ! 0)
     = Fin (of_int 4 - of_int 1) \<and>
   filter (\<lambda>s. attainsMinimum [Fin 3, Fin 4] (net s))
     (holeScores (exampleHole (JStr (str ''Al'')) 1 (Fin 4) (Fin 3) 1 (Fin 4) (Fin 4)))
     = [\<lparr>playerName = JStr (str ''Al''), gross = Some (Fin 4), net = Fin 3, strokes = 1\<rparr>] \<and>
   skinValue (exampleHole (JStr (str ''Al'')) 1 (Fin 4) (Fin 3) 1 (Fin 4) (Fin 4)) = 1 \<and>
   winner (exampleHole (JStr (str ''Al'')) 1 (Fin 4) (Fin 3) 1 (Fin 4) (Fin 4))
     = JStr (str ''Al'') \<and>
   analyzeSkins headerRows initialState =
     Inr \<lparr>players = [], skinsResults = emptyRoundResults, error = None,
          holeHandicaps = actualHoleHandicaps\<rparr> \<and>
   map_of emptyRoundResults (8 + 1) = Some noWinner \<and>
   skinValue noWinner = 0 \<and> winner noWinner = JStr (str ''No Winner'')"
proof -
  let ?R = "exampleHole (JStr (str ''Al'')) 1 (Fin 4) (Fin 3) 1 (Fin 4) (Fin 4)"
  let ?al = "\<lparr>playerName = JStr (str ''Al''), gross = Some (Fin 4), net = Fin 3, strokes = 1\<rparr>"
  let ?e = "\<lparr>players = [], skinsResults = emptyRoundResults, error = None,
            holeHandicaps = actualHoleHandicaps\<rparr>"
  have i: "(0::nat) < 9"
    by simp
  have k: "(0::nat) < length (players exampleState)"
    by (simp add: example_state_simps)
  have look: "map_of (skinsResults exampleState) (0 + 1) = Some ?R"
    by (simp add: example_state_simps exampleResults_def)
  have g: "gross (holeScores ?R ! 0) = Some (Fin (of_int 4))"
    by (simp add: exampleHole_def)
  have small: "\<bar>4 :: int\<bar> < 2 ^ 52"
    by simp
  have n: "map net (holeScores ?R) = [Fin 3, Fin 4]"
    by (simp add: exampleHole_def)
  have f: "filter (\<lambda>s. attainsMinimum [Fin 3, Fin 4] (net s)) (holeScores ?R) = [?al]"
    by (simp add: exampleHole_def attainsMinimum_def)
  have s: "strokes (holeScores ?R ! 0) = 1"
    by (simp add: exampleHole_def)
  note w = hole_winner [OF example_run]
  from w have keys: "map fst (skinsResults exampleState) = [1, 2, 3, 4, 5, 6, 7, 8, 9]"
    by (rule conjunct1)
  from w [THEN conjunct2, rule_format, OF i] look
  have fields: "\<forall>k<length (players exampleState).
      (\<forall>n. gross (holeScores ?R ! k) = Some (Fin (of_int n)) \<and> \<bar>n\<bar> < 2 ^ 52 \<longrightarrow>
         net (holeScores ?R ! k) = Fin (of_int n - of_int (strokes (holeScores ?R ! k))))"
    and win: "case filter (\<lambda>s. attainsMinimum (map net (holeScores ?R)) (net s))
                    (holeScores ?R) of
               [w] \<Rightarrow> skinValue ?R = 1 \<and> winner ?R = playerName w
             | _ \<Rightarrow> skinValue ?R = 0 \<and> winner ?R = JStr (str ''No Winner'')"
    by auto
  from fields [rule_format, OF k, of 4] g small
  have "net (holeScores ?R ! 0) = Fin (of_int 4 - of_int (strokes (holeScores ?R ! 0)))"
    by blast
  then have net: "net (holeScores ?R ! 0) = Fin (of_int 4 - of_int 1)"
    by (simp only: s)
  from win have one: "skinValue ?R = 1 \<and> winner ?R = JStr (str ''Al'')"
    unfolding n f by simp
  have i8: "(8::nat) < 9"
    by simp
  have look8: "map_of (skinsResults ?e) (8 + 1) = Some noWinner"
    by (simp add: emptyRoundResults_def)
  have none: "players ?e = []"
    by simp
  from hole_winner [OF header_run, THEN conjunct2, rule_format, OF i8] look8 none
  have "skinValue noWinner = 0 \<and> winner noWinner = JStr (str ''No Winner'')"
    by auto
  with keys i k look g small net f one header_run example_run look8 show ?thesis
    by simp
qed

subsection \<open>A hole with a score that is no number\<close>

lemma net_NaN:
  assumes "holeIndex < length (scores p) \<Longrightarrow> scores p ! holeIndex = NaN"
  shows "net (netScoreOf hh holeIndex p) = NaN"
  using assms by (simp add: netScoreOf_def Let_def)

lemma holeResultOf_NaN:
  assumes "p \<in> set pd" and "net (netScoreOf (actualHoleHandicaps ! i) i p) = NaN"
  shows "Math_min (map net (holeScores (holeResultOf pd i))) = NaN"
    and "winner (holeResultOf pd i) = JStr (str ''No Winner'')"
    and "skinValue (holeResultOf pd i) = 0"
proof -
  let ?ns = "map (netScoreOf (actualHoleHandicaps ! i) i) pd"
  have "NaN \<in> set (map net ?ns)"
    using assms by (force simp: image_iff)
  then have m: "Math_min (map net ?ns) = NaN"
    by (rule Math_min_NaN)
  then show "Math_min (map net (holeScores (holeResultOf pd i))) = NaN"
    by simp
  have w: "filter (\<lambda>s. num_strict_eq (net s) (Math_min (map net ?ns))) ?ns = []"
    unfolding m by (simp add: num_strict_eq_def)
  show "winner (holeResultOf pd i) = JStr (str ''No Winner'')"
    and "skinValue (holeResultOf pd i) = 0"
    unfolding holeResultOf_def Let_def w by simp_all
qed

text \<open>
  C6. When the score of one player on a hole is \<open>NaN\<close>, the result stored for that hole
  has the winner "No Winner" and the value 0, whatever the other players scored.
\<close>

theorem unparsed_score_no_winner:
  assumes "analyzeSkins data st = Inr st'"
    and "p \<in> set (players st')"
    and "i < 9"
    and "i < length (scores p)"
    and "scores p ! i = NaN"
  shows "\<exists>r. map_of (skinsResults st') (i + 1) = Some r \<and>
             winner r = JStr (str ''No Winner'') \<and> skinValue r = 0"
proof -
  have "net (netScoreOf (actualHoleHandicaps ! i) i p) = NaN"
    using assms(5) by (rule net_NaN)
  from holeResultOf_NaN(2,3) [OF assms(2) this] results_lookup [OF assms(1,3)]
  show ?thesis by simp
qed

theorem unparsed_score_no_winner_witness:
  "analyzeSkins exampleRows initialState = Inr exampleState \<and>
   boPlayer \<in> set (players exampleState) \<and> (2::nat) < 9 \<and> 2 < length (scores boPlayer) \<and>
   scores boPlayer ! 2 = NaN \<and>
   map_of (skinsResults exampleState) 3
     = Some (exampleHole (JStr (str ''No Winner'')) 0 (Fin 4) (Fin 4) 0 NaN NaN)"
proof -
  have p: "boPlayer \<in> set (players exampleState)"
    by (simp add: example_state_simps)
  have i: "(2::nat) < 9"
    by simp
  have l: "2 < length (scores boPlayer)"
    by (simp add: boPlayer_def)
  have s: "scores boPlayer ! 2 = NaN"
    by (simp add: boPlayer_def)
  show ?thesis
    using unparsed_score_no_winner [OF example_run p i l s] example_run p l s
    by (simp add: example_state_simps exampleResults_def)
qed

subsection \<open>Cells that hold no integer\<close>

lemma isRadixDigit_10: "isRadixDigit 10 c = isDigit c"
  by (simp add: isRadixDigit_def digitValue_def isDigit_def)

lemma isRadixDigit_16: "isRadixDigit 16 c = isHexDigit c"
  by (auto simp: isRadixDigit_def digitValue_def isHexDigit_def isDigit_def)

lemma signed_rest:
  "(if S \<noteq> [] \<and> isSign (hd S) then tl S else S)
     = (case S of [] \<Rightarrow> [] | c # cs \<Rightarrow> if isSign c then cs else S)"
  by (cases S) simp_all

lemma run_empty_iff:
  "takeWhile P xs = [] \<longleftrightarrow> (case xs of [] \<Rightarrow> True | d # ds \<Rightarrow> \<not> P d)"
  by (cases xs) simp_all

lemma parseInt_string_NaN_iff: "parseInt_string s = NaN \<longleftrightarrow> noIntegerPrefix (JStr s)"
proof -
  define u where
    "u = (case dropWhile isWhiteSpace s of
            [] \<Rightarrow> []
          | c # cs \<Rightarrow> if isSign c then cs else dropWhile isWhiteSpace s)"
  define hex where "hex = (take 2 u = str ''0x'' \<or> take 2 u = str ''0X'')"
  have spec: "noIntegerPrefix (JStr s) =
      (if hex then (case drop 2 u of [] \<Rightarrow> True | d # ds \<Rightarrow> \<not> isHexDigit d)
       else (case u of [] \<Rightarrow> True | d # ds \<Rightarrow> \<not> isDigit d))"
    by (simp add: noIntegerPrefix_def Let_def u_def hex_def)
  have code: "parseInt_string s = NaN \<longleftrightarrow>
      takeWhile (isRadixDigit (if hex then 16 else 10)) (if hex then drop 2 u else u) = []"
    by (simp add: parseInt_string_def trimStart_def Let_def signed_rest u_def hex_def
        toBinary64_not_NaN)
  show ?thesis
    unfolding spec code
    by (cases hex) (simp_all add: run_empty_iff isRadixDigit_16 isRadixDigit_10 cong: list.case_cong)
qed

lemma parseInt_number_Fin: "parseInt_number (Fin r) \<noteq> NaN"
  by (simp add: toBinary64_not_NaN Let_def split: prod.splits)

text \<open>
  \<open>parseInt\<close> gives \<open>NaN\<close> for exactly the cells without an integer at their start.
\<close>

lemma parseInt_NaN_iff: "parseInt v = NaN \<longleftrightarrow> noIntegerPrefix v"
proof (cases v)
  case (JStr s)
  then show ?thesis
    by (simp add: parseInt_string_NaN_iff)
next
  case (JNum x)
  show ?thesis
  proof (cases x)
    case (Fin r)
    with JNum parseInt_number_Fin [of r] show ?thesis
      by (simp add: noIntegerPrefix_def del: parseInt_number.simps)
  qed (simp_all add: JNum noIntegerPrefix_def)
qed (simp_all add: noIntegerPrefix_def)

text \<open>A cell that is an integer has an integer at its start.\<close>

lemma integer_cell_has_prefix: "isIntegerCell v \<Longrightarrow> \<not> noIntegerPrefix v"
proof (cases v)
  case (JStr s)
  assume a: "isIntegerCell v"
  define u where
    "u = (case dropWhile isWhiteSpace s of
            [] \<Rightarrow> []
          | c # cs \<Rightarrow> if isSign c then cs else dropWhile isWhiteSpace s)"
  define hex where "hex = (take 2 u = str ''0x'' \<or> take 2 u = str ''0X'')"
  have spec: "noIntegerPrefix (JStr s) =
      (if hex then (case drop 2 u of [] \<Rightarrow> True | d # ds \<Rightarrow> \<not> isHexDigit d)
       else (case u of [] \<Rightarrow> True | d # ds \<Rightarrow> \<not> isDigit d))"
    by (simp add: noIntegerPrefix_def Let_def u_def hex_def)
  from a JStr have d: "takeWhile isDigit u \<noteq> []"
    and w: "list_all isWhiteSpace (dropWhile isDigit u)"
    by (simp_all add: isIntegerCell_def Let_def u_def)
  from d obtain c cs where u: "u = c # cs" and c: "isDigit c"
    by (cases u) (auto split: if_splits)
  have nohex: "\<not> hex"
  proof
    assume hex
    then obtain x rest where x: "u = 0x30 # x # rest" "x = 0x78 \<or> x = 0x58"
      using u unfolding hex_def by (cases cs) (auto simp: str_def)
    from x(2) have nd: "\<not> isDigit x" and nw: "\<not> isWhiteSpace x"
      by (auto simp: isDigit_def isWhiteSpace_def)
    have "isDigit 0x30"
      by (simp add: isDigit_def)
    with nd have "dropWhile isDigit u = x # rest"
      by (simp add: x(1))
    with w nw show False
      by simp
  qed
  show ?thesis
    unfolding JStr spec using nohex c u by simp
next
  case (JNum x)
  assume "isIntegerCell v"
  with JNum show ?thesis
    by (cases x) (simp_all add: isIntegerCell_def noIntegerPrefix_def)
qed (simp_all add: isIntegerCell_def)

lemma scores_toPlayer:
  "i < 9 \<Longrightarrow> 3 + i < length row \<Longrightarrow>
     i < length (scores (toPlayer row)) \<and> scores (toPlayer row) ! i = parseInt (row ! (3 + i))"
  by (simp add: toPlayer_def slice_def)

lemma scores_toPlayer_short:
  "\<not> 3 + i < length row \<Longrightarrow> \<not> i < length (scores (toPlayer row))"
  by (auto simp: toPlayer_def slice_def)

lemma gross_toPlayer:
  assumes "i < 9"
  shows "gross (netScoreOf hh i (toPlayer row)) =
           (if 3 + i < length row then Some (parseInt (row ! (3 + i))) else None)"
proof (cases "3 + i < length row")
  case True
  with scores_toPlayer [OF assms True] show ?thesis
    by (simp add: netScoreOf_fields)
next
  case False
  with scores_toPlayer_short [OF False] show ?thesis
    by (simp add: netScoreOf_fields)
qed

lemma netScoreOf_noIntegerPrefix:
  assumes "i < 9" and "noIntegerPrefix (idx row (3 + i))"
  shows "gross (netScoreOf hh i (toPlayer row)) = (if 3 + i < length row then Some NaN else None)"
    and "net (netScoreOf hh i (toPlayer row)) = NaN"
proof -
  from assms(2) have "parseInt (idx row (3 + i)) = NaN"
    by (simp add: parseInt_NaN_iff)
  then show g: "gross (netScoreOf hh i (toPlayer row)) =
      (if 3 + i < length row then Some NaN else None)"
    unfolding gross_toPlayer [OF assms(1)] by (auto simp: idx_def)
  show "net (netScoreOf hh i (toPlayer row)) = NaN"
    unfolding netScoreOf_fields(4) g by simp
qed

text \<open>
  C4, as the code has it. The score cell of a player row is parsed to \<open>NaN\<close> exactly when
  it has no integer at its start: a string with no decimal digit after the leading white
  space and one optional sign, or with a bare \<open>0x\<close> there, or a cell that is neither a
  string nor a finite Number. For such a
  cell the gross score of the player on that hole is \<open>NaN\<close> (it reads \<open>undefined\<close> where
  the row ends before the cell) and never 0, the net score is \<open>NaN\<close>, the lowest net score
  that the winners are compared with is \<open>NaN\<close>, and the hole has no winner. A cell that
  starts with an integer is parsed to a Number, whatever follows the digits.
\<close>

theorem unparsable_score_propagates:
  assumes "analyzeSkins data st = Inr st'"
    and "filterRows data = Inr playerRows"
    and "k < length playerRows"
    and "i < 9"
  shows "(parseInt (idx (playerRows ! k) (3 + i)) = NaN \<longleftrightarrow>
            noIntegerPrefix (idx (playerRows ! k) (3 + i))) \<and>
         (\<exists>r. map_of (skinsResults st') (i + 1) = Some r \<and>
              k < length (holeScores r) \<and>
              playerName (holeScores r ! k) = idx (playerRows ! k) 0 \<and>
              gross (holeScores r ! k) =
                (if 3 + i < length (playerRows ! k)
                 then Some (parseInt (playerRows ! k ! (3 + i))) else None) \<and>
              (noIntegerPrefix (idx (playerRows ! k) (3 + i)) \<longrightarrow>
                 gross (holeScores r ! k) =
                   (if 3 + i < length (playerRows ! k) then Some NaN else None) \<and>
                 gross (holeScores r ! k) \<noteq> Some (Fin 0) \<and>
                 net (holeScores r ! k) = NaN \<and>
                 Math_min (map net (holeScores r)) = NaN \<and>
                 winner r = JStr (str ''No Winner'') \<and> skinValue r = 0) \<and>
              (\<not> noIntegerPrefix (idx (playerRows ! k) (3 + i)) \<longrightarrow>
                 gross (holeScores r ! k) \<noteq> None \<and> gross (holeScores r ! k) \<noteq> Some NaN))"
proof -
  let ?row = "playerRows ! k"
  let ?hh = "actualHoleHandicaps ! i"
  let ?r = "holeResultOf (players st') i"
  let ?s = "netScoreOf ?hh i (toPlayer ?row)"
  have pl: "players st' = map toPlayer playerRows"
    using assms(1,2) by (auto simp: analyzeSkins_Inr)
  have mem: "toPlayer ?row \<in> set (players st')"
    using assms(3) by (simp add: pl)
  have entry: "holeScores ?r ! k = ?s" and len: "k < length (holeScores ?r)"
    using assms(3) by (simp_all add: pl)
  have nm: "playerName ?s = idx ?row 0"
    by (simp add: netScoreOf_fields toPlayer_def)
  note g = gross_toPlayer [OF assms(4), of ?hh ?row]
  have bad: "gross ?s = (if 3 + i < length ?row then Some NaN else None) \<and>
      gross ?s \<noteq> Some (Fin 0) \<and> net ?s = NaN \<and>
      Math_min (map net (holeScores ?r)) = NaN \<and>
      winner ?r = JStr (str ''No Winner'') \<and> skinValue ?r = 0"
    if u: "noIntegerPrefix (idx ?row (3 + i))"
  proof -
    note n = netScoreOf_noIntegerPrefix [OF assms(4) u, of ?hh]
    from holeResultOf_NaN [OF mem n(2)] n show ?thesis
      by simp
  qed
  have good: "gross ?s \<noteq> None \<and> gross ?s \<noteq> Some NaN"
    if u: "\<not> noIntegerPrefix (idx ?row (3 + i))"
  proof -
    from u have present: "3 + i < length ?row"
      by (auto simp: idx_def noIntegerPrefix_def split: if_splits)
    with u have "parseInt (?row ! (3 + i)) \<noteq> NaN"
      by (simp add: parseInt_NaN_iff idx_def)
    with present show ?thesis
      by (simp add: g)
  qed
  have "map_of (skinsResults st') (i + 1) = Some ?r"
    using assms(1,4) by (rule results_lookup)
  with len nm g bad good show ?thesis
    unfolding entry [symmetric] parseInt_NaN_iff
    by (intro conjI exI [of _ ?r]) (simp_all add: entry)
qed

theorem unparsable_score_propagates_witness:
  "analyzeSkins exampleRows initialState = Inr exampleState \<and>
   filterRows exampleRows = Inr [alRow, boRow] \<and>
   (1::nat) < length [alRow, boRow] \<and> (0::nat) < length [alRow, boRow] \<and> (2::nat) < 9 \<and>
   idx ([alRow, boRow] ! 1) (3 + 2) = JStr (str ''x'') \<and>
   noIntegerPrefix (JStr (str ''x'')) \<and>
   parseInt (JStr (str ''x'')) = NaN \<and>
   idx ([alRow, boRow] ! 0) (3 + 2) = JStr (str ''4'') \<and>
   \<not> noIntegerPrefix (JStr (str ''4'')) \<and>
   parseInt (JStr (str ''4'')) \<noteq> NaN \<and>
   map_of (skinsResults exampleState) (2 + 1)
     = Some (exampleHole (JStr (str ''No Winner'')) 0 (Fin 4) (Fin 4) 0 NaN NaN)"
proof -
  have k1: "(1::nat) < length [alRow, boRow]" and k0: "(0::nat) < length [alRow, boRow]"
    by simp_all
  have i: "(2::nat) < 9"
    by simp
  have cx: "idx ([alRow, boRow] ! 1) (3 + 2) = JStr (str ''x'')"
    by (simp add: boRow_def idx_def)
  have c4: "idx ([alRow, boRow] ! 0) (3 + 2) = JStr (str ''4'')"
    by (simp add: alRow_def idx_def)
  have ux: "noIntegerPrefix (JStr (str ''x''))"
    by (simp add: noIntegerPrefix_def isWhiteSpace_def isDigit_def isSign_def str_def)
  have u4: "\<not> noIntegerPrefix (JStr (str ''4''))"
    by (simp add: noIntegerPrefix_def isWhiteSpace_def isDigit_def isSign_def str_def)
  have look: "map_of (skinsResults exampleState) (2 + 1)
      = Some (exampleHole (JStr (str ''No Winner'')) 0 (Fin 4) (Fin 4) 0 NaN NaN)"
    by (simp add: example_state_simps exampleResults_def)
  from unparsable_score_propagates [OF example_run example_filter k1 i, THEN conjunct1] ux
  have px: "parseInt (JStr (str ''x'')) = NaN"
    unfolding cx by blast
  from unparsable_score_propagates [OF example_run example_filter k0 i, THEN conjunct1] u4
  have p4: "parseInt (JStr (str ''4'')) \<noteq> NaN"
    unfolding c4 by blast
  from example_run example_filter k1 k0 i cx c4 ux u4 px p4 look show ?thesis
    by blast
qed

text \<open>
  The score cell \<open>0abc\<close> is no integer, and so is \<open>0.5\<close>; both are parsed to 0. In the
  round of Cy and Di the first cell of Di reads \<open>0abc\<close>: the gross score is 0, it is the
  lowest net score of the hole, and Di wins the skin.
\<close>

theorem partly_numeric_score_is_zero:
  "idx diRow (3 + 0) = JStr (str ''0abc'') \<and>
   \<not> isIntegerCell (JStr (str ''0abc'')) \<and>
   parseInt (JStr (str ''0abc'')) = Fin 0 \<and>
   \<not> isIntegerCell (JStr (str ''0.5'')) \<and>
   parseInt (JStr (str ''0.5'')) = Fin 0 \<and>
   analyzeSkins prefixRows initialState = Inr prefixState \<and>
   map_of (skinsResults prefixState) (0 + 1)
     = Some (plainHole (JStr (str ''Cy'')) (JStr (str ''Di'')) (JStr (str ''Di'')) 1
               (Fin 4) (Fin 0)) \<and>
   Math_min [Fin 4, Fin 0] = Fin 0"
  by (simp add: prefix_run diRow_def idx_def isIntegerCell_def prefixState_def js_min2_def
      parse_defs)

subsection \<open>The table of hole handicaps\<close>

text \<open>
  C8. After every successful analysis the hole handicaps are the table
  4, 14, 16, 2, 18, 8, 6, 12, 10, whatever the rows and whatever the state before, and the
  strokes recorded for hole \<open>i + 1\<close> are those of the stroke rule at entry \<open>i\<close> of that
  table.
\<close>

theorem hole_handicaps_fixed:
  assumes "analyzeSkins data st = Inr st'"
  shows "holeHandicaps st' =
           [Fin 4, Fin 14, Fin 16, Fin 2, Fin 18, Fin 8, Fin 6, Fin 12, Fin 10] \<and>
         (\<forall>i<9. \<exists>r. map_of (skinsResults st') (i + 1) = Some r \<and>
            map strokes (holeScores r) =
              map (\<lambda>p. calculateStrokesReceived (halfHandicap p)
                          ([Fin 4, Fin 14, Fin 16, Fin 2, Fin 18, Fin 8, Fin 6, Fin 12, Fin 10] ! i))
                  (players st'))"
proof -
  have "holeHandicaps st' = actualHoleHandicaps"
    using assms by (auto simp: analyzeSkins_Inr)
  moreover have "map strokes (holeScores (holeResultOf (players st') i)) =
        map (\<lambda>p. calculateStrokesReceived (halfHandicap p) (actualHoleHandicaps ! i)) (players st')"
    for i
    by (simp add: netScoreOf_def Let_def comp_def)
  ultimately show ?thesis
    using results_lookup [OF assms] unfolding actualHoleHandicaps_def by simp
qed

theorem hole_handicaps_fixed_witness:
  "analyzeSkins exampleRows initialState = Inr exampleState \<and>
   holeHandicaps exampleState =
     [Fin 4, Fin 14, Fin 16, Fin 2, Fin 18, Fin 8, Fin 6, Fin 12, Fin 10] \<and>
   (\<exists>r. map_of (skinsResults exampleState) (0 + 1) = Some r \<and>
        map strokes (holeScores r) =
          map (\<lambda>p. calculateStrokesReceived (halfHandicap p) (Fin 4)) (players exampleState))"
  using hole_handicaps_fixed [OF example_run, THEN conjunct1]
    hole_handicaps_fixed [OF example_run, THEN conjunct2, rule_format, of 0] example_run
  by simp

subsection \<open>No dependence on the state before\<close>

lemma totalValue_cong:
  "skinsResults a = skinsResults b \<Longrightarrow> totalValue a = totalValue b"
  by (rule ext) (simp add: totalValue_def)

text \<open>
  C9. Two runs on the same rows, from any two states, fail with the same exception or both
  succeed with the same players, the same results by hole, the same hole handicaps and
  the same totals by player; and a run repeated on its own outcome changes nothing.
\<close>

theorem analyzeSkins_deterministic:
  "(case analyzeSkins data sa of
      Inl e \<Rightarrow> analyzeSkins data sb = Inl e
    | Inr a \<Rightarrow>
        (\<exists>b. analyzeSkins data sb = Inr b \<and>
             players b = players a \<and>
             skinsResults b = skinsResults a \<and>
             holeHandicaps b = holeHandicaps a \<and>
             map (totalValue b) (players b) = map (totalValue a) (players a) \<and>
             totalSkinsByPlayer b = totalSkinsByPlayer a) \<and>
        analyzeSkins data a = Inr a)"
proof (cases "filterRows data")
  case (Inl e)
  then show ?thesis
    by (simp add: analyzeSkins_def)
next
  case (Inr playerRows)
  define upd where "upd = (\<lambda>st :: state. st\<lparr>players := map toPlayer playerRows,
      holeHandicaps := actualHoleHandicaps,
      skinsResults := map (holeEntry (map toPlayer playerRows)) [0..<9]\<rparr>)"
  have run: "analyzeSkins data st = Inr (upd st)" for st
    using Inr by (simp add: analyzeSkins_Inr upd_def)
  have tv: "totalValue (upd sb) = totalValue (upd sa)"
    by (rule totalValue_cong) (simp add: upd_def)
  have ts: "totalSkinsByPlayer (upd sb) = totalSkinsByPlayer (upd sa)"
    by (simp add: totalSkinsByPlayer_def tv) (simp add: upd_def)
  have idem: "upd (upd sa) = upd sa"
    by (simp add: upd_def)
  have same: "players (upd sb) = players (upd sa)"
    "skinsResults (upd sb) = skinsResults (upd sa)"
    "holeHandicaps (upd sb) = holeHandicaps (upd sa)"
    by (simp_all add: upd_def)
  show ?thesis
    by (simp add: run idem same tv ts)
qed

theorem analyzeSkins_deterministic_witness:
  "analyzeSkins exampleRows initialState = Inr exampleState \<and>
   analyzeSkins exampleRows exampleState = Inr exampleState \<and>
   analyzeSkins (headerRows @ [typedRow]) exampleState = Inl TypeError"
proof -
  have t: "analyzeSkins (headerRows @ [typedRow]) initialState = Inl TypeError"
    by (simp add: analyzeSkins_Inl headerRows_def typedRow_def row_defs)
  show ?thesis
    using analyzeSkins_deterministic
        [where data = exampleRows and sa = initialState and sb = exampleState]
      analyzeSkins_deterministic
        [where data = "headerRows @ [typedRow]" and sa = initialState and sb = exampleState]
      example_run t
    by simp
qed

subsection \<open>Totals by player\<close>

lemma isPlayerRow_truthy: "isPlayerRow row = Inr True \<Longrightarrow> truthy (idx row 0)"
  by (auto simp: isPlayerRow_def split: if_splits)

lemma filterRows_truthy:
  "filterRows data = Inr playerRows \<Longrightarrow> row \<in> set playerRows \<Longrightarrow> truthy (idx row 0)"
proof (induction data arbitrary: playerRows)
  case Nil
  then show ?case by simp
next
  case (Cons r rest)
  from Cons.prems(1) obtain keep kept where
    k: "isPlayerRow r = Inr keep" and f: "filterRows rest = Inr kept"
    and pr: "playerRows = (if keep then r # kept else kept)"
    by (auto split: sum.splits)
  show ?case
  proof (cases "keep \<and> row = r")
    case True
    with k show ?thesis by (simp add: isPlayerRow_truthy)
  next
    case False
    with pr Cons.prems(2) have "row \<in> set kept" by (auto split: if_splits)
    with Cons.IH [OF f] show ?thesis .
  qed
qed

lemma strict_eq_truthy: "truthy b \<Longrightarrow> strict_eq a b \<longleftrightarrow> a = b"
  by (cases a; cases b) (auto simp: num_strict_eq_def)

lemma players_truthy:
  assumes "analyzeSkins data st = Inr st'" and "p \<in> set (players st')"
  shows "truthy (name p)"
proof -
  from assms obtain playerRows row where "filterRows data = Inr playerRows"
    and "row \<in> set playerRows" and "p = toPlayer row"
    by (auto simp: analyzeSkins_Inr)
  with filterRows_truthy show ?thesis
    by (simp add: toPlayer_def)
qed

lemma foldl_sum: "foldl (\<lambda>sum skin. sum + skinValue skin) a rs = a + sum_list (map skinValue rs)"
  by (induction rs arbitrary: a) simp_all

lemma totalValue_sum:
  "totalValue st p =
     (\<Sum>r\<leftarrow>Object_values (skinsResults st). if strict_eq (winner r) (name p) then skinValue r else 0)"
  by (simp add: totalValue_def foldl_sum sum_list_map_filter' Let_def)

lemma sum_list_swap:
  "(\<Sum>p\<leftarrow>ps. \<Sum>r\<leftarrow>rs. f r p) = (\<Sum>r\<leftarrow>rs. \<Sum>p\<leftarrow>ps. (f r p :: int))"
  by (induction ps) (simp_all add: sum_list_addf)

lemma count_distinct_name:
  "distinct (map name ps) \<Longrightarrow>
     (\<Sum>p\<leftarrow>ps. if x = name p then v else 0) = (if x \<in> name ` set ps then v else (0::int))"
  by (induction ps) auto

lemma holeResultOf_value:
  "skinValue (holeResultOf pd i) = 0 \<or>
   skinValue (holeResultOf pd i) = 1 \<and> winner (holeResultOf pd i) \<in> name ` set pd"
proof -
  define ns where "ns = map (netScoreOf (actualHoleHandicaps ! i) i) pd"
  define ws where "ws = filter (\<lambda>s. num_strict_eq (net s) (Math_min (map net ns))) ns"
  have res: "holeResultOf pd i =
      (if length ws = 1
       then \<lparr>winner = playerName (hd ws), skinValue = 1, holeScores = ns\<rparr>
       else \<lparr>winner = JStr (str ''No Winner''), skinValue = 0, holeScores = ns\<rparr>)"
    unfolding holeResultOf_def Let_def ws_def ns_def ..
  show ?thesis
  proof (cases "length ws = 1")
    case True
    then have "ws \<noteq> []"
      by (cases ws) simp_all
    then have "hd ws \<in> set ws"
      by (rule hd_in_set)
    then have "hd ws \<in> set ns"
      by (simp add: ws_def)
    then obtain p where "p \<in> set pd" and "hd ws = netScoreOf (actualHoleHandicaps ! i) i p"
      by (auto simp: ns_def)
    then have "playerName (hd ws) \<in> name ` set pd"
      by (simp add: netScoreOf_def Let_def)
    with True show ?thesis
      by (simp add: res)
  next
    case False
    then show ?thesis
      by (simp add: res)
  qed
qed

lemma hole_value_split:
  assumes "distinct (map name pd)" and "\<forall>p\<in>set pd. truthy (name p)"
  shows "(\<Sum>p\<leftarrow>pd. if strict_eq (winner (holeResultOf pd i)) (name p)
                    then skinValue (holeResultOf pd i) else 0)
         = skinValue (holeResultOf pd i)"
proof -
  let ?r = "holeResultOf pd i"
  have "(\<Sum>p\<leftarrow>pd. if strict_eq (winner ?r) (name p) then skinValue ?r else 0)
        = (\<Sum>p\<leftarrow>pd. if winner ?r = name p then skinValue ?r else 0)"
    using assms(2) by (intro arg_cong [where f = sum_list] map_cong refl) (simp add: strict_eq_truthy)
  also have "\<dots> = (if winner ?r \<in> name ` set pd then skinValue ?r else 0)"
    using assms(1) by (rule count_distinct_name)
  also have "\<dots> = skinValue ?r"
    using holeResultOf_value [of pd i] by auto
  finally show ?thesis .
qed

lemma holeResultOf_sentinel:
  "skinValue (holeResultOf pd i) = 1 \<or> winner (holeResultOf pd i) = JStr (str ''No Winner'')"
  by (simp add: holeResultOf_def Let_def)

lemma totalValue_count:
  assumes "analyzeSkins data st = Inr st'"
    and "p \<in> set (players st')"
    and "name p \<noteq> JStr (str ''No Winner'')"
  shows "totalValue st' p = int (holesWon st' p)"
proof -
  let ?rs = "Object_values (skinsResults st')"
  have rs: "?rs = map (holeResultOf (players st')) [0..<9]"
    using assms(1) by (auto simp: analyzeSkins_Inr Object_values_def holeEntry_def comp_def)
  have one: "skinValue r = 1" if "r \<in> set ?rs" and "strict_eq (winner r) (name p)" for r
  proof -
    from that(1) obtain i where r: "r = holeResultOf (players st') i"
      unfolding rs by auto
    from that(2) have "winner r = name p"
      by (simp add: strict_eq_truthy players_truthy [OF assms(1,2)])
    with assms(3) holeResultOf_sentinel [of "players st'" i] show ?thesis
      by (auto simp: r)
  qed
  have "totalValue st' p
        = sum_list (map skinValue (filter (\<lambda>r. strict_eq (winner r) (name p)) ?rs))"
    by (simp add: totalValue_def foldl_sum Let_def)
  also have "\<dots> = sum_list (map (\<lambda>r. 1) (filter (\<lambda>r. strict_eq (winner r) (name p)) ?rs))"
    by (intro arg_cong [where f = sum_list] map_cong refl) (simp add: one)
  also have "\<dots> = int (holesWon st' p)"
    by (simp add: sum_list_triv holesWon_def)
  finally show ?thesis .
qed

text \<open>
  C7, as the code has it. When the names of the players are pairwise distinct, the values
  of the nine hole results add up to the sum of the players' totals, and to the sum of
  the totals shown (those above 0). The total of a player is the sum of the values of the
  holes whose winner is the player's name; it is the number of those holes for every
  player whose name is not the words "No Winner".
\<close>

theorem skins_sum:
  assumes "analyzeSkins data st = Inr st'" and "distinct (map name (players st'))"
  shows "length (skinsResults st') = 9 \<and>
         sum_list (map skinValue (Object_values (skinsResults st')))
           = sum_list (map (totalValue st') (players st')) \<and>
         sum_list (map skinValue (Object_values (skinsResults st')))
           = sum_list (map snd (totalSkinsByPlayer st')) \<and>
         (\<forall>p\<in>set (players st').
            totalValue st' p =
              sum_list (map skinValue (filter (\<lambda>r. strict_eq (winner r) (name p))
                                         (Object_values (skinsResults st')))) \<and>
            (name p \<noteq> JStr (str ''No Winner'') \<longrightarrow> totalValue st' p = int (holesWon st' p)))"
proof -
  let ?pd = "players st'"
  let ?rs = "Object_values (skinsResults st')"
  have rs: "?rs = map (holeResultOf ?pd) [0..<9]"
    using assms(1) by (auto simp: analyzeSkins_Inr Object_values_def holeEntry_def comp_def)
  have len: "length (skinsResults st') = 9"
    using assms(1) by (auto simp: analyzeSkins_Inr)
  have tr: "\<forall>p\<in>set ?pd. truthy (name p)"
    using players_truthy [OF assms(1)] by blast
  have "sum_list (map (totalValue st') ?pd)
        = (\<Sum>p\<leftarrow>?pd. \<Sum>r\<leftarrow>?rs. if strict_eq (winner r) (name p) then skinValue r else 0)"
    by (intro arg_cong [where f = sum_list] map_cong refl) (rule totalValue_sum)
  also have "\<dots> = (\<Sum>r\<leftarrow>?rs. \<Sum>p\<leftarrow>?pd. if strict_eq (winner r) (name p) then skinValue r else 0)"
    by (rule sum_list_swap
        [where f = "\<lambda>r p. if strict_eq (winner r) (name p) then skinValue r else 0"])
  also have "\<dots> = (\<Sum>r\<leftarrow>?rs. skinValue r)"
    unfolding rs
    by (simp only: map_map comp_def hole_value_split [OF assms(2) tr])
  finally have total: "sum_list (map skinValue ?rs) = sum_list (map (totalValue st') ?pd)"
    by simp
  have nonneg: "0 \<le> totalValue st' p" for p
  proof -
    have "0 \<le> skinValue (holeResultOf ?pd j)" for j
      using holeResultOf_value [of ?pd j] by auto
    then have "0 \<le> skinValue r" if "r \<in> set ?rs" for r
      using that unfolding rs by auto
    then show ?thesis
      unfolding totalValue_sum by (intro sum_list_nonneg) auto
  qed
  have "sum_list (map snd (totalSkinsByPlayer st'))
        = (\<Sum>p\<leftarrow>?pd. if 0 < totalValue st' p then totalValue st' p else 0)"
    by (simp add: totalSkinsByPlayer_def comp_def sum_list_map_filter')
  also have "\<dots> = sum_list (map (totalValue st') ?pd)"
  proof (intro arg_cong [where f = sum_list] map_cong refl)
    fix p
    from nonneg [of p] show "(if 0 < totalValue st' p then totalValue st' p else 0) = totalValue st' p"
      by arith
  qed
  finally show ?thesis
    using total len totalValue_count [OF assms(1)]
    by (simp add: totalValue_def foldl_sum Let_def)
qed

theorem skins_sum_witness:
  "analyzeSkins exampleRows initialState = Inr exampleState \<and>
   distinct (map name (players exampleState)) \<and>
   sum_list (map skinValue (Object_values (skinsResults exampleState))) = 5 \<and>
   sum_list (map (totalValue exampleState) (players exampleState)) = 5 \<and>
   sum_list (map snd (totalSkinsByPlayer exampleState)) = 5 \<and>
   alPlayer \<in> set (players exampleState) \<and> name alPlayer \<noteq> JStr (str ''No Winner'') \<and>
   holesWon exampleState alPlayer = 4 \<and>
   totalValue exampleState alPlayer = 4"
proof -
  have d: "distinct (map name (players exampleState))"
    by (simp add: example_state_simps alPlayer_def boPlayer_def str_def)
  have v: "sum_list (map skinValue (Object_values (skinsResults exampleState))) = 5"
    by (simp add: example_state_simps exampleResults_def exampleHole_def Object_values_def)
  have a: "alPlayer \<in> set (players exampleState)"
    by (simp add: example_state_simps)
  have n: "name alPlayer \<noteq> JStr (str ''No Winner'')"
    by (simp add: alPlayer_def str_def)
  have c: "holesWon exampleState alPlayer = 4"
    by (simp add: holesWon_def example_state_simps exampleResults_def exampleHole_def
        Object_values_def alPlayer_def str_def)
  from skins_sum [OF example_run d]
  have sums: "sum_list (map skinValue (Object_values (skinsResults exampleState)))
                = sum_list (map (totalValue exampleState) (players exampleState))"
    "sum_list (map skinValue (Object_values (skinsResults exampleState)))
                = sum_list (map snd (totalSkinsByPlayer exampleState))"
    and cnt: "\<forall>p\<in>set (players exampleState).
            name p \<noteq> JStr (str ''No Winner'') \<longrightarrow>
            totalValue exampleState p = int (holesWon exampleState p)"
    by blast+
  from cnt a n have "totalValue exampleState alPlayer = int (holesWon exampleState alPlayer)"
    by blast
  then have "totalValue exampleState alPlayer = 4"
    by (simp only: c)
  with sums v example_run d a n c show ?thesis
    by simp
qed

text \<open>
  With a player named "No Winner" the count of holes differs from the total. In the round
  of "No Winner" and Ed, Ed wins hole 1, "No Winner" wins hole 2 and the holes 3 to 9 are
  tied: the values add up to 2, the totals are 1 and 1, and the holes whose winner is a
  player's name number 8 and 1.
\<close>

theorem sentinel_name_count_differs:
  "analyzeSkins sentinelRows initialState = Inr sentinelState \<and>
   players sentinelState = [nwPlayer, edPlayer] \<and>
   distinct (map name (players sentinelState)) \<and>
   sum_list (map skinValue (Object_values (skinsResults sentinelState))) = 2 \<and>
   totalValue sentinelState nwPlayer = 1 \<and>
   totalValue sentinelState edPlayer = 1 \<and>
   holesWon sentinelState nwPlayer = 8 \<and>
   holesWon sentinelState edPlayer = 1 \<and>
   sum_list (map skinValue (Object_values (skinsResults sentinelState)))
     \<noteq> int (holesWon sentinelState nwPlayer) + int (holesWon sentinelState edPlayer)"
  by (simp add: sentinel_run)
    (simp add: sentinelState_def sentinelTie_def nwPlayer_def edPlayer_def plainPlayer_def
      plainHole_def holesWon_def totalValue_def Object_values_def str_def)

subsection \<open>A table without player rows\<close>

text \<open>
  C3, as the code has it. When the filter keeps no row, \<open>analyzeSkins\<close> throws nothing:
  it stores an empty list of players and nine hole results, each with the winner
  "No Winner", the value 0 and no net score.
\<close>

theorem empty_player_set_results:
  assumes "filterRows data = Inr []"
  shows "analyzeSkins data st =
           Inr (st\<lparr>players := [], holeHandicaps := actualHoleHandicaps,
                   skinsResults := emptyRoundResults\<rparr>)"
  using assms by (simp add: analyzeSkins_Inr empty_results del: upt_Suc)

theorem empty_player_set_results_witness:
  "filterRows headerRows = Inr [] \<and>
   analyzeSkins headerRows exampleState =
     Inr \<lparr>players = [], skinsResults = emptyRoundResults, error = None,
          holeHandicaps = actualHoleHandicaps\<rparr>"
  using empty_player_set_results [OF header_filter, of exampleState] header_filter
  by (simp add: exampleState_def)

text \<open>
  The specification asks for an InputFormatError and no hole results on such a table; on
  a header row followed by a row of pars the analysis returns its nine results.
\<close>

theorem header_only_table_returns_results:
  "filterRows headerRows = Inr [] \<and>
   analyzeSkins headerRows initialState =
     Inr \<lparr>players = [], skinsResults = emptyRoundResults, error = None,
          holeHandicaps = actualHoleHandicaps\<rparr> \<and>
   length emptyRoundResults = 9"
  by (simp add: analyzeSkins_Inr header_filter empty_results initialState_def
      emptyRoundResults_def del: upt_Suc)

subsection \<open>Rows with typed cells\<close>

text \<open>
  C5. The filter is to classify every row, a number in the third cell included. On
  \<open>typedRow\<close>, whose first cell passes every test and whose third cell is the number 1,
  \<open>row[2]?.includes\<close> is not a function: the callback throws a TypeError and the analysis
  ends with it.
\<close>

theorem numeric_third_cell_throws:
  "truthy (idx typedRow 0) \<and> idx typedRow 2 = JNum (Fin 1) \<and>
   isPlayerRow typedRow = Inl TypeError \<and>
   analyzeSkins (headerRows @ [typedRow]) initialState = Inl TypeError"
  by (simp add: analyzeSkins_Inl headerRows_def typedRow_def row_defs)

text \<open>
  On rows of strings, as an uploaded file gives them, the filter never throws and keeps
  exactly the rows the three conditions describe.
\<close>

lemma str_includes_iff: "str_includes s p \<longleftrightarrow> (\<exists>pre post. s = pre @ p @ post)"
proof (induction s)
  case Nil
  then show ?case by auto
next
  case (Cons c cs)
  have "take (length p) (c # cs) = p \<longleftrightarrow> (\<exists>post. c # cs = p @ post)"
    by (metis append_eq_conv_conj)
  moreover have "(\<exists>pre post. c # cs = pre @ p @ post) \<longleftrightarrow>
        (\<exists>post. c # cs = p @ post) \<or> (\<exists>pre post. cs = pre @ p @ post)"
  proof
    assume "\<exists>pre post. c # cs = pre @ p @ post"
    then obtain pre post where e: "c # cs = pre @ p @ post" by blast
    show "(\<exists>post. c # cs = p @ post) \<or> (\<exists>pre post. cs = pre @ p @ post)"
    proof (cases pre)
      case Nil
      with e show ?thesis by auto
    next
      case (Cons a pre')
      with e have "cs = pre' @ p @ post" by simp
      then show ?thesis by blast
    qed
  next
    assume "(\<exists>post. c # cs = p @ post) \<or> (\<exists>pre post. cs = pre @ p @ post)"
    then show "\<exists>pre post. c # cs = pre @ p @ post"
    proof
      assume "\<exists>post. c # cs = p @ post"
      then obtain post where "c # cs = [] @ p @ post" by auto
      then show ?thesis by blast
    next
      assume "\<exists>pre post. cs = pre @ p @ post"
      then obtain pre post where "c # cs = (c # pre) @ p @ post" by auto
      then show ?thesis by blast
    qed
  qed
  ultimately show ?case
    using Cons.IH by simp
qed

lemma isPlayerRow_strings:
  assumes "\<forall>c\<in>set row. \<exists>s. c = JStr s"
  shows "isPlayerRow row =
           Inr (idx row 0 \<notin> {JUndefined, JStr []} \<and>
                idx row 0 \<notin> {JStr (str ''Player''), JStr (str ''HDCP''), JStr (str ''PAR'')} \<and>
                (\<forall>s. idx row 2 = JStr s \<longrightarrow> \<not> (\<exists>pre post. s = pre @ str ''Pars'' @ post)))"
proof -
  have cell: "idx row i = JUndefined \<or> (\<exists>s. idx row i = JStr s)" for i
    using assms by (auto simp: idx_def)
  from cell [of 0] cell [of 2] show ?thesis
    by (auto simp: isPlayerRow_def str_includes_iff)
qed

end
